theory Spec2Isabelle
  imports Complex_Main
begin

section \<open>JavaScript values and objects\<close>

text \<open>
  The records of the data provider are plain JavaScript objects with string, number and
  boolean fields. An object is a finite map from property names to values; a property
  can be absent, or present with the value \<^verbatim>\<open>undefined\<close> (the screens build
  payloads with \<^verbatim>\<open>notes: undefined\<close>). A value of type \<^verbatim>\<open>number\<close> is a finite
  number, modelled as a rational, or one of \<^verbatim>\<open>NaN\<close>, \<^verbatim>\<open>Infinity\<close> and
  \<^verbatim>\<open>-Infinity\<close>.
\<close>

datatype jsval =
  JUndefined | JNull | JBool bool | JNum rat | JNaN | JInfinity | JNegInfinity | JStr string

type_synonym obj = "string \<rightharpoonup> jsval"

text \<open>Property read \<^verbatim>\<open>o.k\<close>: an absent property reads as \<^verbatim>\<open>undefined\<close>.\<close>

definition field :: "obj \<Rightarrow> string \<Rightarrow> jsval" where
  "field ob k = (case ob k of None \<Rightarrow> JUndefined | Some v \<Rightarrow> v)"

text \<open>
  Object spread \<^verbatim>\<open>{...a, ...b}\<close> is \<open>a ++ b\<close>: the properties of \<open>b\<close>
  override those of \<open>a\<close>, and a property written after a spread overrides the spread.
\<close>

section \<open>The entity types (types/entities)\<close>

datatype ftype = TString | TNumber | TBoolean | TUnion "string list"

fun has_type :: "ftype \<Rightarrow> jsval \<Rightarrow> bool" where
  "has_type TString (JStr s) = True"
| "has_type TNumber (JNum n) = True"
| "has_type TNumber JNaN = True"
| "has_type TNumber JInfinity = True"
| "has_type TNumber JNegInfinity = True"
| "has_type TBoolean (JBool b) = True"
| "has_type (TUnion ls) (JStr s) = (s \<in> set ls)"
| "has_type t v = False"

text \<open>An object type: the property name, its type, and whether it is optional (\<^verbatim>\<open>k?: t\<close>).\<close>

type_synonym tstype = "(string \<times> ftype \<times> bool) list"

definition Part :: tstype where
  "Part =
    [(''id'', TString, False),
     (''name'', TString, False),
     (''code'', TString, False),
     (''quantity'', TNumber, False),
     (''minStock'', TNumber, False),
     (''location'', TString, False),
     (''supplier'', TString, False),
     (''category'', TUnion [''Mecanica'', ''Eletrica'', ''Suspensao'', ''Lataria'', ''Outros''], False),
     (''unitCost'', TNumber, False),
     (''updatedAt'', TString, False)]"

definition Revision :: tstype where
  "Revision =
    [(''id'', TString, False),
     (''clientName'', TString, False),
     (''clientPhone'', TString, False),
     (''vehicleModel'', TString, False),
     (''licensePlate'', TString, False),
     (''serviceDescription'', TString, False),
     (''scheduledDate'', TString, False),
     (''scheduledTime'', TString, False),
     (''status'', TUnion [''agendada'', ''em andamento'', ''concluida''], False),
     (''priority'', TUnion [''alta'', ''media'', ''baixa''], False),
     (''assignedTo'', TString, True),
     (''notes'', TString, True),
     (''remindersEnabled'', TBoolean, False)]"

definition TeamMember :: tstype where
  "TeamMember =
    [(''id'', TString, False),
     (''name'', TString, False),
     (''role'', TUnion [''Mecanico'', ''Eletricista'', ''Diagnostico'', ''Pintor'', ''Atendimento''], False),
     (''phone'', TString, False),
     (''email'', TString, False),
     (''active'', TBoolean, False),
     (''expertiseLevel'', TUnion [''Junior'', ''Pleno'', ''Senior''], False),
     (''certificationExpiry'', TString, False),
     (''hiredAt'', TString, False)]"

definition Client :: tstype where
  "Client =
    [(''id'', TString, False),
     (''name'', TString, False),
     (''phone'', TString, False),
     (''email'', TString, False),
     (''vehicle'', TString, False),
     (''licensePlate'', TString, False),
     (''lastVisit'', TString, False),
     (''tier'', TUnion [''Standard'', ''Gold'', ''Platinum''], False),
     (''preferredAdvisor'', TString, True),
     (''active'', TBoolean, False),
     (''notes'', TString, True)]"

definition Supplier :: tstype where
  "Supplier =
    [(''id'', TString, False),
     (''company'', TString, False),
     (''contactName'', TString, False),
     (''phone'', TString, False),
     (''email'', TString, False),
     (''category'', TUnion [''Pecas originais'', ''Pecas paralelas'', ''Pneus'', ''Tintas'',
        ''Servicos terceirizados''], False),
     (''leadTimeDays'', TNumber, False),
     (''preferred'', TBoolean, False),
     (''rating'', TNumber, False),
     (''lastOrderDate'', TString, False)]"

text \<open>\<^verbatim>\<open>Omit<T, 'a' | 'b'>\<close>: the type without the named properties.\<close>

definition Omit :: "tstype \<Rightarrow> string list \<Rightarrow> tstype" where
  "Omit T ks = filter (\<lambda>(k, t, opt). k \<notin> set ks) T"

text \<open>
  An object is of an object type when every required property is present with a value of
  its type, every optional property is absent, \<^verbatim>\<open>undefined\<close> or of its type, and the
  object carries no property outside the type (the object literals the screens pass).
\<close>

definition conforms :: "tstype \<Rightarrow> obj \<Rightarrow> bool" where
  "conforms T ob \<longleftrightarrow>
     (\<forall>(k, t, opt) \<in> set T.
        case ob k of None \<Rightarrow> opt | Some v \<Rightarrow> has_type t v \<or> (opt \<and> v = JUndefined))
     \<and> dom ob \<subseteq> fst ` set T"

section \<open>The provider's state and its operations (providers/data-provider)\<close>

text \<open>The six \<^verbatim>\<open>useState\<close> cells of \<^verbatim>\<open>DataProvider\<close>.\<close>

record store =
  isReady :: bool
  parts :: "obj list"
  revisions :: "obj list"
  team :: "obj list"
  clients :: "obj list"
  suppliers :: "obj list"

text \<open>The initial values of the cells: not ready, every collection empty.\<close>

definition initialStore :: store where
  "initialStore =
     \<lparr>isReady = False, parts = [], revisions = [], team = [], clients = [], suppliers = []\<rparr>"

text \<open>
  The fifteen operations. Each one passes an updater to the setter of one cell; the model
  applies the updater to the cell. \<open>newId\<close> is the string \<^verbatim>\<open>generateId()\<close> returns
  in the call and \<open>now\<close> the string \<^verbatim>\<open>nowIso()\<close> returns. In the object literals the
  properties are written in the order of the source: in the \<^verbatim>\<open>create\<close> operations the
  input is spread last, in the \<^verbatim>\<open>update\<close> operations \<^verbatim>\<open>id\<close> (and for a part
  \<^verbatim>\<open>updatedAt\<close>) is written last.
\<close>

definition createPart :: "string \<Rightarrow> string \<Rightarrow> obj \<Rightarrow> store \<Rightarrow> store" where
  "createPart newId now input s =
     s\<lparr>parts := ([''id'' \<mapsto> JStr newId, ''updatedAt'' \<mapsto> JStr now] ++ input) # parts s\<rparr>"

definition updatePart :: "string \<Rightarrow> string \<Rightarrow> obj \<Rightarrow> store \<Rightarrow> store" where
  "updatePart ident now input s =
     s\<lparr>parts := map (\<lambda>item.
          if field item ''id'' = JStr ident
          then (item ++ input)(''updatedAt'' \<mapsto> JStr now, ''id'' \<mapsto> JStr ident)
          else item) (parts s)\<rparr>"

definition deletePart :: "string \<Rightarrow> store \<Rightarrow> store" where
  "deletePart ident s =
     s\<lparr>parts := filter (\<lambda>item. field item ''id'' \<noteq> JStr ident) (parts s)\<rparr>"

definition createRevision :: "string \<Rightarrow> obj \<Rightarrow> store \<Rightarrow> store" where
  "createRevision newId input s =
     s\<lparr>revisions := ([''id'' \<mapsto> JStr newId] ++ input) # revisions s\<rparr>"

definition updateRevision :: "string \<Rightarrow> obj \<Rightarrow> store \<Rightarrow> store" where
  "updateRevision ident input s =
     s\<lparr>revisions := map (\<lambda>item.
          if field item ''id'' = JStr ident
          then (item ++ input)(''id'' \<mapsto> JStr ident)
          else item) (revisions s)\<rparr>"

definition deleteRevision :: "string \<Rightarrow> store \<Rightarrow> store" where
  "deleteRevision ident s =
     s\<lparr>revisions := filter (\<lambda>item. field item ''id'' \<noteq> JStr ident) (revisions s)\<rparr>"

definition createTeamMember :: "string \<Rightarrow> obj \<Rightarrow> store \<Rightarrow> store" where
  "createTeamMember newId input s =
     s\<lparr>team := ([''id'' \<mapsto> JStr newId] ++ input) # team s\<rparr>"

definition updateTeamMember :: "string \<Rightarrow> obj \<Rightarrow> store \<Rightarrow> store" where
  "updateTeamMember ident input s =
     s\<lparr>team := map (\<lambda>item.
          if field item ''id'' = JStr ident
          then (item ++ input)(''id'' \<mapsto> JStr ident)
          else item) (team s)\<rparr>"

definition deleteTeamMember :: "string \<Rightarrow> store \<Rightarrow> store" where
  "deleteTeamMember ident s =
     s\<lparr>team := filter (\<lambda>item. field item ''id'' \<noteq> JStr ident) (team s)\<rparr>"

definition createClient :: "string \<Rightarrow> obj \<Rightarrow> store \<Rightarrow> store" where
  "createClient newId input s =
     s\<lparr>clients := ([''id'' \<mapsto> JStr newId] ++ input) # clients s\<rparr>"

definition updateClient :: "string \<Rightarrow> obj \<Rightarrow> store \<Rightarrow> store" where
  "updateClient ident input s =
     s\<lparr>clients := map (\<lambda>item.
          if field item ''id'' = JStr ident
          then (item ++ input)(''id'' \<mapsto> JStr ident)
          else item) (clients s)\<rparr>"

definition deleteClient :: "string \<Rightarrow> store \<Rightarrow> store" where
  "deleteClient ident s =
     s\<lparr>clients := filter (\<lambda>item. field item ''id'' \<noteq> JStr ident) (clients s)\<rparr>"

definition createSupplier :: "string \<Rightarrow> obj \<Rightarrow> store \<Rightarrow> store" where
  "createSupplier newId input s =
     s\<lparr>suppliers := ([''id'' \<mapsto> JStr newId] ++ input) # suppliers s\<rparr>"

definition updateSupplier :: "string \<Rightarrow> obj \<Rightarrow> store \<Rightarrow> store" where
  "updateSupplier ident input s =
     s\<lparr>suppliers := map (\<lambda>item.
          if field item ''id'' = JStr ident
          then (item ++ input)(''id'' \<mapsto> JStr ident)
          else item) (suppliers s)\<rparr>"

definition deleteSupplier :: "string \<Rightarrow> store \<Rightarrow> store" where
  "deleteSupplier ident s =
     s\<lparr>suppliers := filter (\<lambda>item. field item ''id'' \<noteq> JStr ident) (suppliers s)\<rparr>"

text \<open>
  The context value exposes the five collections and the fifteen operations. A call of
  one of them is an \<open>action\<close>; \<open>dispatch\<close> runs it on the cells. A create carries
  the generated identity, the time of the call and the input; an update the identity, the
  time of the call and the input; a delete the identity. Only the operations on parts use
  the time.
\<close>

datatype kind = Parts | Revisions | Team | Clients | Suppliers

fun coll :: "kind \<Rightarrow> store \<Rightarrow> obj list" where
  "coll Parts s = parts s"
| "coll Revisions s = revisions s"
| "coll Team s = team s"
| "coll Clients s = clients s"
| "coll Suppliers s = suppliers s"

datatype action =
    Create kind string string obj
  | Update kind string string obj
  | Delete kind string

fun dispatch :: "action \<Rightarrow> store \<Rightarrow> store" where
  "dispatch (Create Parts newId now input) s = createPart newId now input s"
| "dispatch (Create Revisions newId now input) s = createRevision newId input s"
| "dispatch (Create Team newId now input) s = createTeamMember newId input s"
| "dispatch (Create Clients newId now input) s = createClient newId input s"
| "dispatch (Create Suppliers newId now input) s = createSupplier newId input s"
| "dispatch (Update Parts ident now input) s = updatePart ident now input s"
| "dispatch (Update Revisions ident now input) s = updateRevision ident input s"
| "dispatch (Update Team ident now input) s = updateTeamMember ident input s"
| "dispatch (Update Clients ident now input) s = updateClient ident input s"
| "dispatch (Update Suppliers ident now input) s = updateSupplier ident input s"
| "dispatch (Delete Parts ident) s = deletePart ident s"
| "dispatch (Delete Revisions ident) s = deleteRevision ident s"
| "dispatch (Delete Team ident) s = deleteTeamMember ident s"
| "dispatch (Delete Clients ident) s = deleteClient ident s"
| "dispatch (Delete Suppliers ident) s = deleteSupplier ident s"

text \<open>The type of a collection's records and of the input of its create and update.\<close>

fun entityType :: "kind \<Rightarrow> tstype" where
  "entityType Parts = Part"
| "entityType Revisions = Revision"
| "entityType Team = TeamMember"
| "entityType Clients = Client"
| "entityType Suppliers = Supplier"

fun createInput :: "kind \<Rightarrow> tstype" where
  "createInput Parts = Omit Part [''id'', ''updatedAt'']"
| "createInput k = Omit (entityType k) [''id'']"

definition updateInput :: "kind \<Rightarrow> tstype" where
  "updateInput k = Omit (entityType k) [''id'']"

text \<open>The identities of a collection, in order.\<close>

definition ids :: "obj list \<Rightarrow> jsval list" where
  "ids xs = map (\<lambda>item. field item ''id'') xs"

section \<open>Persistent storage and asynchronous functions\<close>

text \<open>
  \<^verbatim>\<open>AsyncStorage\<close> is a key-value store of strings whose reads and writes return
  promises that can reject. The model keeps the stored strings and, for every key, whether
  a read or a write of that key rejects. A rejected write leaves the stored strings as
  they were.
\<close>

datatype error = StorageError | SyntaxError

record storage =
  items :: "string \<rightharpoonup> string"
  rejectsRead :: "string \<Rightarrow> bool"
  rejectsWrite :: "string \<Rightarrow> bool"

text \<open>
  An asynchronous function runs on the storage and either fulfils with a value or rejects
  with an error. \<open>await\<close> sequences two of them and passes a rejection on;
  \<open>try_catch\<close> is the \<^verbatim>\<open>try { ... } catch (error) { ... }\<close> block around a body.
\<close>

type_synonym 'a promise = "storage \<Rightarrow> (error + 'a) \<times> storage"

definition resolve :: "'a \<Rightarrow> 'a promise" where
  "resolve x = (\<lambda>d. (Inr x, d))"

definition reject :: "error \<Rightarrow> 'a promise" where
  "reject e = (\<lambda>d. (Inl e, d))"

definition await :: "'a promise \<Rightarrow> ('a \<Rightarrow> 'b promise) \<Rightarrow> 'b promise" where
  "await m f = (\<lambda>d. case m d of (Inl e, d') \<Rightarrow> (Inl e, d') | (Inr x, d') \<Rightarrow> f x d')"

definition try_catch :: "'a promise \<Rightarrow> (error \<Rightarrow> 'a promise) \<Rightarrow> 'a promise" where
  "try_catch body handler =
     (\<lambda>d. case body d of (Inl e, d') \<Rightarrow> handler e d' | (Inr x, d') \<Rightarrow> (Inr x, d'))"

definition getItem :: "string \<Rightarrow> string option promise" where
  "getItem key = (\<lambda>d. if rejectsRead d key then (Inl StorageError, d) else (Inr (items d key), d))"

definition setItem :: "string \<Rightarrow> string \<Rightarrow> unit promise" where
  "setItem key v =
     (\<lambda>d. if rejectsWrite d key then (Inl StorageError, d)
          else (Inr (), d\<lparr>items := (items d)(key \<mapsto> v)\<rparr>))"

text \<open>\<^verbatim>\<open>!raw\<close> for \<^verbatim>\<open>raw: string | null\<close>: true for null and for the empty string.\<close>

definition falsy :: "string option \<Rightarrow> bool" where
  "falsy raw = (case raw of None \<Rightarrow> True | Some str \<Rightarrow> str = [])"

text \<open>
  \<^verbatim>\<open>JSON.stringify\<close> and \<^verbatim>\<open>JSON.parse\<close> belong to the platform; the two functions
  take them as parameters, and a later section gives them on the records the provider
  stores. \<open>JSON_parse\<close> returns \<open>Inl\<close> where the platform function
  throws, and otherwise a list of records, as the cast \<^verbatim>\<open>as T[]\<close> of the source
  takes it to be. The \<^verbatim>\<open>console\<close> calls have no effect on the state and are left
  out.
\<close>

definition loadCollection ::
  "('a list \<Rightarrow> string) \<Rightarrow> (string \<Rightarrow> error + 'a list) \<Rightarrow> string \<Rightarrow> 'a list \<Rightarrow> 'a list promise" where
  "loadCollection JSON_stringify JSON_parse key fallback =
     try_catch
       (await (getItem key) (\<lambda>raw.
          if falsy raw
          then await (setItem key (JSON_stringify fallback)) (\<lambda>_. resolve fallback)
          else (case JSON_parse (the raw) of
                  Inl e \<Rightarrow> reject e
                | Inr parsed \<Rightarrow> resolve parsed)))
       (\<lambda>error. resolve fallback)"

definition persistCollection :: "('a list \<Rightarrow> string) \<Rightarrow> string \<Rightarrow> 'a list \<Rightarrow> unit promise" where
  "persistCollection JSON_stringify key v =
     try_catch
       (await (setItem key (JSON_stringify v)) (\<lambda>_. resolve ()))
       (\<lambda>error. resolve ())"

section \<open>Storage keys and seed records\<close>

fun STORAGE_KEYS :: "kind \<Rightarrow> string" where
  "STORAGE_KEYS Parts = ''@redcar/parts''"
| "STORAGE_KEYS Revisions = ''@redcar/revisions''"
| "STORAGE_KEYS Team = ''@redcar/team''"
| "STORAGE_KEYS Clients = ''@redcar/clients''"
| "STORAGE_KEYS Suppliers = ''@redcar/suppliers''"

text \<open>
  The seed records are built once, when the module is loaded. \<open>gen n\<close> is the string the
  \<open>n\<close>-th call of \<^verbatim>\<open>generateId()\<close> returns (the eleven calls are numbered in the
  order of the module text), and \<open>isoAt ms\<close> is the ISO-8601 text of the load time plus
  \<open>ms\<close> milliseconds, so \<^verbatim>\<open>nowIso()\<close> is \<open>isoAt 0\<close>.
\<close>

definition defaultTeam :: "(nat \<Rightarrow> string) \<Rightarrow> (int \<Rightarrow> string) \<Rightarrow> obj list" where
  "defaultTeam gen isoAt =
    [[''id'' \<mapsto> JStr (gen 0),
      ''name'' \<mapsto> JStr ''Renato Albuquerque'',
      ''role'' \<mapsto> JStr ''Mecanico'',
      ''phone'' \<mapsto> JStr ''(11) 95555-2901'',
      ''email'' \<mapsto> JStr ''renato.albuquerque@redcar.com'',
      ''active'' \<mapsto> JBool True,
      ''expertiseLevel'' \<mapsto> JStr ''Senior'',
      ''certificationExpiry'' \<mapsto> JStr (isoAt (90 * 86400000)),
      ''hiredAt'' \<mapsto> JStr ''2020-03-10T00:00:00.000Z''],
     [''id'' \<mapsto> JStr (gen 1),
      ''name'' \<mapsto> JStr ''Isabela Monteiro'',
      ''role'' \<mapsto> JStr ''Diagnostico'',
      ''phone'' \<mapsto> JStr ''(11) 98888-4412'',
      ''email'' \<mapsto> JStr ''isabela.monteiro@redcar.com'',
      ''active'' \<mapsto> JBool True,
      ''expertiseLevel'' \<mapsto> JStr ''Pleno'',
      ''certificationExpiry'' \<mapsto> JStr (isoAt (45 * 86400000)),
      ''hiredAt'' \<mapsto> JStr ''2021-08-22T00:00:00.000Z'']]"

definition defaultParts :: "(nat \<Rightarrow> string) \<Rightarrow> (int \<Rightarrow> string) \<Rightarrow> obj list" where
  "defaultParts gen isoAt =
    [[''id'' \<mapsto> JStr (gen 2),
      ''name'' \<mapsto> JStr ''Filtro de oleo sintetico'',
      ''code'' \<mapsto> JStr ''RC-FO-900'',
      ''quantity'' \<mapsto> JNum 18,
      ''minStock'' \<mapsto> JNum 6,
      ''location'' \<mapsto> JStr ''Corredor B2'',
      ''supplier'' \<mapsto> JStr ''Mann-Filter'',
      ''category'' \<mapsto> JStr ''Mecanica'',
      ''unitCost'' \<mapsto> JNum 38.9,
      ''updatedAt'' \<mapsto> JStr (isoAt 0)],
     [''id'' \<mapsto> JStr (gen 3),
      ''name'' \<mapsto> JStr ''Pastilha de freio ceramica'',
      ''code'' \<mapsto> JStr ''RC-PF-320'',
      ''quantity'' \<mapsto> JNum 8,
      ''minStock'' \<mapsto> JNum 12,
      ''location'' \<mapsto> JStr ''Corredor A1'',
      ''supplier'' \<mapsto> JStr ''Bosch'',
      ''category'' \<mapsto> JStr ''Suspensao'',
      ''unitCost'' \<mapsto> JNum 126.4,
      ''updatedAt'' \<mapsto> JStr (isoAt 0)]]"

definition defaultRevisions :: "(nat \<Rightarrow> string) \<Rightarrow> (int \<Rightarrow> string) \<Rightarrow> obj list" where
  "defaultRevisions gen isoAt =
    [[''id'' \<mapsto> JStr (gen 4),
      ''clientName'' \<mapsto> JStr ''Juliana Souza'',
      ''clientPhone'' \<mapsto> JStr ''(11) 97123-4001'',
      ''vehicleModel'' \<mapsto> JStr ''Toyota Corolla 2022'',
      ''licensePlate'' \<mapsto> JStr ''FRT-1023'',
      ''serviceDescription'' \<mapsto> JStr ''Revisao de 20.000 km + alinhamento'',
      ''scheduledDate'' \<mapsto> JStr (isoAt 0),
      ''scheduledTime'' \<mapsto> JStr ''14:00'',
      ''status'' \<mapsto> JStr ''agendada'',
      ''priority'' \<mapsto> JStr ''media'',
      ''assignedTo'' \<mapsto> field (defaultTeam gen isoAt ! 1) ''id'',
      ''notes'' \<mapsto> JStr ''Cliente aguarda contato caso haja orcamento adicional.'',
      ''remindersEnabled'' \<mapsto> JBool True],
     [''id'' \<mapsto> JStr (gen 5),
      ''clientName'' \<mapsto> JStr ''Carlos Henrique'',
      ''clientPhone'' \<mapsto> JStr ''(11) 97211-8899'',
      ''vehicleModel'' \<mapsto> JStr ''Honda Civic 2020'',
      ''licensePlate'' \<mapsto> JStr ''HDC-7788'',
      ''serviceDescription'' \<mapsto>
         JStr (''Troca de correia dentada e bomba d'' @ [CHR 0x27] @ ''agua''),
      ''scheduledDate'' \<mapsto> JStr (isoAt 86400000),
      ''scheduledTime'' \<mapsto> JStr ''10:30'',
      ''status'' \<mapsto> JStr ''em andamento'',
      ''priority'' \<mapsto> JStr ''alta'',
      ''assignedTo'' \<mapsto> field (defaultTeam gen isoAt ! 0) ''id'',
      ''notes'' \<mapsto> JStr ''Pecas separadas, aguardar aprovacao para itens extras.'',
      ''remindersEnabled'' \<mapsto> JBool False],
     [''id'' \<mapsto> JStr (gen 6),
      ''clientName'' \<mapsto> JStr ''Maria Silva'',
      ''clientPhone'' \<mapsto> JStr ''(11) 99999-1234'',
      ''vehicleModel'' \<mapsto> JStr ''Volkswagen Golf 2021'',
      ''licensePlate'' \<mapsto> JStr ''MSG-4567'',
      ''serviceDescription'' \<mapsto> JStr ''Revisao completa + troca de filtros'',
      ''scheduledDate'' \<mapsto> JStr (isoAt (- 2 * 86400000)),
      ''scheduledTime'' \<mapsto> JStr ''09:00'',
      ''status'' \<mapsto> JStr ''concluida'',
      ''priority'' \<mapsto> JStr ''baixa'',
      ''assignedTo'' \<mapsto> field (defaultTeam gen isoAt ! 0) ''id'',
      ''notes'' \<mapsto> JStr ''Servico concluido com sucesso. Cliente satisfeito.'',
      ''remindersEnabled'' \<mapsto> JBool False]]"

definition defaultClients :: "(nat \<Rightarrow> string) \<Rightarrow> (int \<Rightarrow> string) \<Rightarrow> obj list" where
  "defaultClients gen isoAt =
    [[''id'' \<mapsto> JStr (gen 7),
      ''name'' \<mapsto> JStr ''Fernanda Azevedo'',
      ''phone'' \<mapsto> JStr ''(11) 96330-1200'',
      ''email'' \<mapsto> JStr ''fernanda.azevedo@email.com'',
      ''vehicle'' \<mapsto> JStr ''Renault Duster 2019'',
      ''licensePlate'' \<mapsto> JStr ''FND-8891'',
      ''lastVisit'' \<mapsto> JStr (isoAt (- 30 * 86400000)),
      ''tier'' \<mapsto> JStr ''Gold'',
      ''preferredAdvisor'' \<mapsto> field (defaultTeam gen isoAt ! 0) ''id'',
      ''active'' \<mapsto> JBool True,
      ''notes'' \<mapsto> JStr ''Prefere agendamentos pela manha.''],
     [''id'' \<mapsto> JStr (gen 8),
      ''name'' \<mapsto> JStr ''Tiago Martins'',
      ''phone'' \<mapsto> JStr ''(11) 97700-1122'',
      ''email'' \<mapsto> JStr ''tiago.martins@email.com'',
      ''vehicle'' \<mapsto> JStr ''Chevrolet Tracker 2021'',
      ''licensePlate'' \<mapsto> JStr ''TMX-3211'',
      ''lastVisit'' \<mapsto> JStr (isoAt (- 75 * 86400000)),
      ''tier'' \<mapsto> JStr ''Standard'',
      ''active'' \<mapsto> JBool True,
      ''notes'' \<mapsto> JStr ''Solicitou orcamento para instalacao de acessorios.'']]"

definition defaultSuppliers :: "(nat \<Rightarrow> string) \<Rightarrow> (int \<Rightarrow> string) \<Rightarrow> obj list" where
  "defaultSuppliers gen isoAt =
    [[''id'' \<mapsto> JStr (gen 9),
      ''company'' \<mapsto> JStr ''AutoParts Brasil'',
      ''contactName'' \<mapsto> JStr ''Luciana Reis'',
      ''phone'' \<mapsto> JStr ''(11) 94221-7800'',
      ''email'' \<mapsto> JStr ''luciana.reis@autoparts.com'',
      ''category'' \<mapsto> JStr ''Pecas originais'',
      ''leadTimeDays'' \<mapsto> JNum 3,
      ''preferred'' \<mapsto> JBool True,
      ''rating'' \<mapsto> JNum 4.8,
      ''lastOrderDate'' \<mapsto> JStr (isoAt (- 12 * 86400000))],
     [''id'' \<mapsto> JStr (gen 10),
      ''company'' \<mapsto> JStr ''PneusMax'',
      ''contactName'' \<mapsto> JStr ''Eduardo Lima'',
      ''phone'' \<mapsto> JStr ''(11) 93011-9022'',
      ''email'' \<mapsto> JStr ''eduardo@pneusmax.com'',
      ''category'' \<mapsto> JStr ''Pneus'',
      ''leadTimeDays'' \<mapsto> JNum 5,
      ''preferred'' \<mapsto> JBool False,
      ''rating'' \<mapsto> JNum 4.3,
      ''lastOrderDate'' \<mapsto> JStr (isoAt (- 40 * 86400000))]]"

fun defaults :: "(nat \<Rightarrow> string) \<Rightarrow> (int \<Rightarrow> string) \<Rightarrow> kind \<Rightarrow> obj list" where
  "defaults gen isoAt Parts = defaultParts gen isoAt"
| "defaults gen isoAt Revisions = defaultRevisions gen isoAt"
| "defaults gen isoAt Team = defaultTeam gen isoAt"
| "defaults gen isoAt Clients = defaultClients gen isoAt"
| "defaults gen isoAt Suppliers = defaultSuppliers gen isoAt"

section \<open>Startup and persistence of the provider\<close>

text \<open>
  The bootstrap effect: the five loads of \<^verbatim>\<open>Promise.all\<close>, then the six setter calls.
  The loads touch five different keys, so running them one after the other gives the
  result of running them concurrently.
\<close>

definition bootstrap ::
  "(obj list \<Rightarrow> string) \<Rightarrow> (string \<Rightarrow> error + obj list) \<Rightarrow> (nat \<Rightarrow> string) \<Rightarrow> (int \<Rightarrow> string)
     \<Rightarrow> store \<Rightarrow> store promise" where
  "bootstrap JSON_stringify JSON_parse gen isoAt s =
     await (loadCollection JSON_stringify JSON_parse (STORAGE_KEYS Parts) (defaultParts gen isoAt))
       (\<lambda>storedParts.
     await (loadCollection JSON_stringify JSON_parse (STORAGE_KEYS Revisions) (defaultRevisions gen isoAt))
       (\<lambda>storedRevisions.
     await (loadCollection JSON_stringify JSON_parse (STORAGE_KEYS Team) (defaultTeam gen isoAt))
       (\<lambda>storedTeam.
     await (loadCollection JSON_stringify JSON_parse (STORAGE_KEYS Clients) (defaultClients gen isoAt))
       (\<lambda>storedClients.
     await (loadCollection JSON_stringify JSON_parse (STORAGE_KEYS Suppliers) (defaultSuppliers gen isoAt))
       (\<lambda>storedSuppliers.
     resolve (s\<lparr>parts := storedParts, revisions := storedRevisions, team := storedTeam,
                clients := storedClients, suppliers := storedSuppliers, isReady := True\<rparr>))))))"

text \<open>
  The five persistence effects: each one runs after a render in which \<^verbatim>\<open>isReady\<close> or
  its collection changed, and writes the collection when the provider is ready.
\<close>

definition persistEffect :: "(obj list \<Rightarrow> string) \<Rightarrow> kind \<Rightarrow> store \<Rightarrow> unit promise" where
  "persistEffect JSON_stringify k s =
     (if isReady s then persistCollection JSON_stringify (STORAGE_KEYS k) (coll k s)
      else resolve ())"

text \<open>
  Startup: the bootstrap effect on the initial cells, then the render in which
  \<^verbatim>\<open>isReady\<close> has changed, after which all five persistence effects run.
\<close>

definition startup ::
  "(obj list \<Rightarrow> string) \<Rightarrow> (string \<Rightarrow> error + obj list) \<Rightarrow> (nat \<Rightarrow> string) \<Rightarrow> (int \<Rightarrow> string)
     \<Rightarrow> store promise" where
  "startup JSON_stringify JSON_parse gen isoAt =
     await (bootstrap JSON_stringify JSON_parse gen isoAt initialStore) (\<lambda>s.
     await (persistEffect JSON_stringify Parts s) (\<lambda>_.
     await (persistEffect JSON_stringify Revisions s) (\<lambda>_.
     await (persistEffect JSON_stringify Team s) (\<lambda>_.
     await (persistEffect JSON_stringify Clients s) (\<lambda>_.
     await (persistEffect JSON_stringify Suppliers s) (\<lambda>_.
     resolve s))))))"

text \<open>
  A call of an operation by a screen: the cell is updated, and in the render that follows
  the persistence effect of the changed collection runs.
\<close>

fun target :: "action \<Rightarrow> kind" where
  "target (Create k newId now input) = k"
| "target (Update k ident now input) = k"
| "target (Delete k ident) = k"

definition perform :: "(obj list \<Rightarrow> string) \<Rightarrow> action \<Rightarrow> store \<Rightarrow> store promise" where
  "perform JSON_stringify a s =
     await (persistEffect JSON_stringify (target a) (dispatch a s)) (\<lambda>_.
     resolve (dispatch a s))"

subsection \<open>Startup as a transition system\<close>

text \<open>
  The five loads settle in any order, each with its result; when all five are fulfilled
  the continuation of \<^verbatim>\<open>await Promise.all\<close> runs. It calls the six setters one after
  the other without awaiting anything in between, and React applies the updates of such a
  block in one render: the cells change together, in one transition.
\<close>

record sys =
  view :: store
  disk :: storage
  settled :: "kind \<Rightarrow> (error + obj list) option"

datatype event = Settle kind | Commit

definition initialSys :: "storage \<Rightarrow> sys" where
  "initialSys d = \<lparr>view = initialStore, disk = d, settled = (\<lambda>k. None)\<rparr>"

definition fulfilled :: "sys \<Rightarrow> kind \<Rightarrow> bool" where
  "fulfilled c k = (case settled c k of Some (Inr xs) \<Rightarrow> True | _ \<Rightarrow> False)"

definition loaded :: "sys \<Rightarrow> kind \<Rightarrow> obj list" where
  "loaded c k = (case settled c k of Some (Inr xs) \<Rightarrow> xs | _ \<Rightarrow> [])"

fun startup_step ::
  "(obj list \<Rightarrow> string) \<Rightarrow> (string \<Rightarrow> error + obj list) \<Rightarrow> (nat \<Rightarrow> string) \<Rightarrow> (int \<Rightarrow> string)
     \<Rightarrow> event \<Rightarrow> sys \<Rightarrow> sys option" where
  "startup_step JSON_stringify JSON_parse gen isoAt (Settle k) c =
     (if settled c k = None
      then (case loadCollection JSON_stringify JSON_parse (STORAGE_KEYS k) (defaults gen isoAt k) (disk c)
            of (r, d') \<Rightarrow> Some (c\<lparr>disk := d', settled := (settled c)(k := Some r)\<rparr>))
      else None)"
| "startup_step JSON_stringify JSON_parse gen isoAt Commit c =
     (if \<not> isReady (view c) \<and> fulfilled c Parts \<and> fulfilled c Revisions \<and> fulfilled c Team
          \<and> fulfilled c Clients \<and> fulfilled c Suppliers
      then Some (c\<lparr>view := (view c)\<lparr>parts := loaded c Parts, revisions := loaded c Revisions,
                    team := loaded c Team, clients := loaded c Clients,
                    suppliers := loaded c Suppliers, isReady := True\<rparr>\<rparr>)
      else None)"

fun startup_run ::
  "(obj list \<Rightarrow> string) \<Rightarrow> (string \<Rightarrow> error + obj list) \<Rightarrow> (nat \<Rightarrow> string) \<Rightarrow> (int \<Rightarrow> string)
     \<Rightarrow> event list \<Rightarrow> sys \<Rightarrow> sys option" where
  "startup_run JSON_stringify JSON_parse gen isoAt [] c = Some c"
| "startup_run JSON_stringify JSON_parse gen isoAt (e # es) c =
     (case startup_step JSON_stringify JSON_parse gen isoAt e c of
        None \<Rightarrow> None
      | Some c' \<Rightarrow> startup_run JSON_stringify JSON_parse gen isoAt es c')"

subsection \<open>The states reached from the seeded store\<close>

text \<open>
  The store after a startup on empty storage holds the seed records. From there the
  screens create, update and delete; \<^verbatim>\<open>generateId()\<close> is taken to return a string
  that no record of the collection carries, and the input of a create is of its declared
  type.
\<close>

definition seededStore :: "(nat \<Rightarrow> string) \<Rightarrow> (int \<Rightarrow> string) \<Rightarrow> store" where
  "seededStore gen isoAt =
     \<lparr>isReady = True, parts = defaultParts gen isoAt, revisions = defaultRevisions gen isoAt,
      team = defaultTeam gen isoAt, clients = defaultClients gen isoAt,
      suppliers = defaultSuppliers gen isoAt\<rparr>"

inductive reachable :: "(nat \<Rightarrow> string) \<Rightarrow> (int \<Rightarrow> string) \<Rightarrow> store \<Rightarrow> bool"
  for gen :: "nat \<Rightarrow> string" and isoAt :: "int \<Rightarrow> string" where
  seeded: "reachable gen isoAt (seededStore gen isoAt)"
| created: "reachable gen isoAt s \<Longrightarrow> conforms (createInput k) input
     \<Longrightarrow> JStr newId \<notin> set (ids (coll k s))
     \<Longrightarrow> reachable gen isoAt (dispatch (Create k newId now input) s)"
| updated: "reachable gen isoAt s \<Longrightarrow> reachable gen isoAt (dispatch (Update k ident now input) s)"
| deleted: "reachable gen isoAt s \<Longrightarrow> reachable gen isoAt (dispatch (Delete k ident) s)"

section \<open>Field-for-field equality\<close>


text \<open>The value a load hands back, as a function of what the storage holds under the key.\<close>

definition loadValue ::
  "(string \<Rightarrow> error + 'a list) \<Rightarrow> string \<Rightarrow> 'a list \<Rightarrow> storage \<Rightarrow> 'a list" where
  "loadValue JSON_parse key fallback d =
     (if rejectsRead d key \<or> falsy (items d key) then fallback
      else (case JSON_parse (the (items d key)) of Inl e \<Rightarrow> fallback | Inr parsed \<Rightarrow> parsed))"

section \<open>Concrete inputs\<close>

text \<open>
  A stand-in for the platform at concrete inputs: an identifier generator, a clock, a
  codec that knows the empty collection and the seed team, and three storages.
\<close>

definition demo_gen :: "nat \<Rightarrow> string" where
  "demo_gen n = replicate (Suc n) (CHR ''g'')"

definition demo_iso :: "int \<Rightarrow> string" where
  "demo_iso ms = ''2025-11-02T10:00:00.000Z''"

definition demo_stringify :: "obj list \<Rightarrow> string" where
  "demo_stringify xs = (if xs = [] then ''[]'' else ''[{team}]'')"

definition demo_parse :: "string \<Rightarrow> error + obj list" where
  "demo_parse str =
     (if str = ''[]'' then Inr []
      else if str = ''[{team}]'' then Inr (defaultTeam demo_gen demo_iso)
      else Inl SyntaxError)"

definition empty_disk :: storage where
  "empty_disk = \<lparr>items = Map.empty, rejectsRead = (\<lambda>key. False), rejectsWrite = (\<lambda>key. False)\<rparr>"

definition full_disk :: storage where
  "full_disk = \<lparr>items = Map.empty, rejectsRead = (\<lambda>key. False), rejectsWrite = (\<lambda>key. True)\<rparr>"

definition blank_disk :: storage where
  "blank_disk = empty_disk\<lparr>items := [STORAGE_KEYS Team \<mapsto> '''']\<rparr>"

definition corrupt_disk :: storage where
  "corrupt_disk = empty_disk\<lparr>items := [STORAGE_KEYS Team \<mapsto> ''[{broken'']\<rparr>"

definition pad_input :: obj where
  "pad_input =
     [''name'' \<mapsto> JStr ''Pastilha de freio'',
      ''code'' \<mapsto> JStr ''RC-PF-321'',
      ''quantity'' \<mapsto> JNum 5,
      ''minStock'' \<mapsto> JNum 10,
      ''location'' \<mapsto> JStr ''Corredor A1'',
      ''supplier'' \<mapsto> JStr ''Bosch'',
      ''category'' \<mapsto> JStr ''Suspensao'',
      ''unitCost'' \<mapsto> JNum 126.4]"

definition part_item :: obj where
  "part_item =
     [''id'' \<mapsto> JStr ''p1'',
      ''name'' \<mapsto> JStr ''Filtro de oleo sintetico'',
      ''code'' \<mapsto> JStr ''RC-FO-900'',
      ''quantity'' \<mapsto> JNum 18,
      ''minStock'' \<mapsto> JNum 6,
      ''location'' \<mapsto> JStr ''Corredor B2'',
      ''supplier'' \<mapsto> JStr ''Mann-Filter'',
      ''category'' \<mapsto> JStr ''Mecanica'',
      ''unitCost'' \<mapsto> JNum 38.9,
      ''updatedAt'' \<mapsto> JStr ''2025-01-01T00:00:00.000Z'']"

definition part_store :: store where
  "part_store = initialStore\<lparr>parts := [part_item]\<rparr>"

definition part_input :: obj where
  "part_input = pad_input(''updatedAt'' \<mapsto> JStr ''2025-01-01T00:00:00.000Z'')"

definition rev_item :: obj where
  "rev_item =
     [''id'' \<mapsto> JStr ''r1'',
      ''clientName'' \<mapsto> JStr ''Juliana Souza'',
      ''clientPhone'' \<mapsto> JStr ''(11) 97123-4001'',
      ''vehicleModel'' \<mapsto> JStr ''Toyota Corolla 2022'',
      ''licensePlate'' \<mapsto> JStr ''FRT-1023'',
      ''serviceDescription'' \<mapsto> JStr ''Revisao de 20.000 km'',
      ''scheduledDate'' \<mapsto> JStr ''2025-11-02T10:00:00.000Z'',
      ''scheduledTime'' \<mapsto> JStr ''14:00'',
      ''status'' \<mapsto> JStr ''agendada'',
      ''priority'' \<mapsto> JStr ''media'',
      ''notes'' \<mapsto> JStr ''Cliente aguarda contato'',
      ''remindersEnabled'' \<mapsto> JBool True]"

definition rev_input :: obj where
  "rev_input =
     [''clientName'' \<mapsto> JStr ''Juliana Souza'',
      ''clientPhone'' \<mapsto> JStr ''(11) 97123-4001'',
      ''vehicleModel'' \<mapsto> JStr ''Toyota Corolla 2022'',
      ''licensePlate'' \<mapsto> JStr ''FRT-1023'',
      ''serviceDescription'' \<mapsto> JStr ''Revisao de 20.000 km'',
      ''scheduledDate'' \<mapsto> JStr ''2025-11-02T10:00:00.000Z'',
      ''scheduledTime'' \<mapsto> JStr ''14:00'',
      ''status'' \<mapsto> JStr ''concluida'',
      ''priority'' \<mapsto> JStr ''media'',
      ''remindersEnabled'' \<mapsto> JBool True]"

definition rev_store :: store where
  "rev_store = initialStore\<lparr>revisions := [rev_item]\<rparr>"

definition dup_store :: store where
  "dup_store = initialStore\<lparr>team :=
     [[''id'' \<mapsto> JStr ''m1'', ''name'' \<mapsto> JStr ''Ana''],
      [''id'' \<mapsto> JStr ''m2'', ''name'' \<mapsto> JStr ''Bruno''],
      [''id'' \<mapsto> JStr ''m1'', ''name'' \<mapsto> JStr ''Caio''],
      [''id'' \<mapsto> JStr ''m3'', ''name'' \<mapsto> JStr ''Davi'']]\<rparr>"

section \<open>The startup invariant\<close>

text \<open>
  What holds in every state of a startup that began on the storage \<open>d\<close>: the keys of the
  loads still pending hold what \<open>d\<close> held, a settled load carries the result of loading
  its key from \<open>d\<close>, and the cells are the initial ones until the commit, after which
  each collection is the result of its load.
\<close>

definition startup_inv ::
  "(obj list \<Rightarrow> string) \<Rightarrow> (string \<Rightarrow> error + obj list) \<Rightarrow> (nat \<Rightarrow> string) \<Rightarrow> (int \<Rightarrow> string)
     \<Rightarrow> storage \<Rightarrow> sys \<Rightarrow> bool" where
  "startup_inv JSON_stringify JSON_parse gen isoAt d c \<longleftrightarrow>
     rejectsRead (disk c) = rejectsRead d \<and> rejectsWrite (disk c) = rejectsWrite d
     \<and> (\<forall>k. case settled c k of
               None \<Rightarrow> items (disk c) (STORAGE_KEYS k) = items d (STORAGE_KEYS k)
             | Some r \<Rightarrow> r = fst (loadCollection JSON_stringify JSON_parse (STORAGE_KEYS k)
                                  (defaults gen isoAt k) d))
     \<and> (if isReady (view c) then \<forall>k. fulfilled c k \<and> coll k (view c) = loaded c k
         else view c = initialStore)"

section \<open>The JSON text of a collection\<close>

text \<open>
  \<^verbatim>\<open>JSON.stringify\<close> and \<^verbatim>\<open>JSON.parse\<close> on the values the provider stores: an array
  of flat objects whose properties are strings, numbers, booleans or \<^verbatim>\<open>null\<close>. A
  record is written with its properties in their order, so here it is the list of its
  properties; \<open>map_of\<close> gives the object it denotes. As on the platform, a property whose
  value is \<^verbatim>\<open>undefined\<close> is left out of the text, and \<^verbatim>\<open>NaN\<close>, \<^verbatim>\<open>Infinity\<close>
  and \<^verbatim>\<open>-Infinity\<close> are written as \<^verbatim>\<open>null\<close>. The text has no white space. A finite
  number is written as an integer, followed by a negative decimal exponent when it has a
  fractional part (\<^verbatim>\<open>389e-1\<close> for 38.9); the platform chooses another numeral for the
  same number.
\<close>

type_synonym props = "(string \<times> jsval) list"

subsection \<open>Numerals\<close>


definition val_of :: "char \<Rightarrow> nat option" where
  "val_of c =
     map_of [(CHR ''0'', 0), (CHR ''1'', 1), (CHR ''2'', 2), (CHR ''3'', 3), (CHR ''4'', 4),
             (CHR ''5'', 5), (CHR ''6'', 6), (CHR ''7'', 7), (CHR ''8'', 8), (CHR ''9'', 9)] c"




fun read_nat :: "nat \<Rightarrow> char list \<Rightarrow> nat \<times> char list" where
  "read_nat acc [] = (acc, [])"
| "read_nat acc (c # cs) =
     (case val_of c of
        None \<Rightarrow> (acc, c # cs)
      | Some v \<Rightarrow> read_nat (10 * acc + v) cs)"

definition parse_nat :: "char list \<Rightarrow> (nat \<times> char list) option" where
  "parse_nat cs =
     (case cs of
        [] \<Rightarrow> None
      | c # cs' \<Rightarrow> if val_of c = None then None else Some (read_nat 0 cs))"

definition parse_int :: "char list \<Rightarrow> (int \<times> char list) option" where
  "parse_int cs =
     (case cs of
        [] \<Rightarrow> None
      | c # cs' \<Rightarrow>
          if c = CHR ''-'' then map_option (apfst (\<lambda>n. - int n)) (parse_nat cs')
          else map_option (apfst int) (parse_nat cs))"



definition parse_number :: "char list \<Rightarrow> (jsval \<times> char list) option" where
  "parse_number cs =
     (case parse_int cs of
        None \<Rightarrow> None
      | Some (m, rest) \<Rightarrow>
          (case rest of
             e # sg # rest' \<Rightarrow>
               if e = CHR ''e'' \<and> sg = CHR ''-''
               then (case parse_nat rest' of
                       None \<Rightarrow> None
                     | Some (k, rest'') \<Rightarrow> Some (JNum (of_int m / 10 ^ k), rest''))
               else Some (JNum (of_int m), rest)
           | _ \<Rightarrow> Some (JNum (of_int m), rest)))"

subsection \<open>Strings\<close>

text \<open>
  The quotation mark and the backslash are escaped with a backslash, a control character
  as \<^verbatim>\<open>\u00XX\<close>; the parser refuses a control character that is not escaped.
\<close>

definition hex_of :: "nat \<Rightarrow> char" where
  "hex_of n = ''0123456789abcdef'' ! (n mod 16)"

definition hex_val :: "char \<Rightarrow> nat option" where
  "hex_val c =
     map_of [(CHR ''0'', 0), (CHR ''1'', 1), (CHR ''2'', 2), (CHR ''3'', 3), (CHR ''4'', 4),
             (CHR ''5'', 5), (CHR ''6'', 6), (CHR ''7'', 7), (CHR ''8'', 8), (CHR ''9'', 9),
             (CHR ''a'', 10), (CHR ''b'', 11), (CHR ''c'', 12), (CHR ''d'', 13),
             (CHR ''e'', 14), (CHR ''f'', 15)] c"

definition escape_char :: "char \<Rightarrow> string" where
  "escape_char c =
     (if c = CHR 0x22 \<or> c = CHR 0x5C then [CHR 0x5C, c]
      else if of_char c < (32::nat)
      then [CHR 0x5C, CHR ''u'', CHR ''0'', CHR ''0'',
            hex_of (of_char c div 16), hex_of (of_char c mod 16)]
      else [c])"

definition quote :: "string \<Rightarrow> string" where
  "quote str = CHR 0x22 # concat (map escape_char str) @ [CHR 0x22]"

fun string_body :: "char list \<Rightarrow> (string \<times> char list) option" where
  "string_body [] = None"
| "string_body (c # cs) =
     (if c = CHR 0x22 then Some ([], cs)
      else if c = CHR 0x5C then
        (case cs of
           [] \<Rightarrow> None
         | e # cs' \<Rightarrow>
             if e = CHR 0x22 \<or> e = CHR 0x5C
             then map_option (apfst ((#) e)) (string_body cs')
             else if e = CHR ''u''
             then (case cs' of
                     z1 # z2 # h1 # h2 # cs'' \<Rightarrow>
                       if z1 = CHR ''0'' \<and> z2 = CHR ''0''
                       then (case (hex_val h1, hex_val h2) of
                               (Some a, Some b) \<Rightarrow>
                                 map_option (apfst ((#) (char_of (16 * a + b)))) (string_body cs'')
                             | _ \<Rightarrow> None)
                       else None
                   | _ \<Rightarrow> None)
             else None)
      else if of_char c < (32::nat) then None
      else map_option (apfst ((#) c)) (string_body cs))"

subsection \<open>Values, objects and arrays\<close>


definition expect :: "string \<Rightarrow> char list \<Rightarrow> char list option" where
  "expect lit cs = (if take (length lit) cs = lit then Some (drop (length lit) cs) else None)"

definition parse_value :: "char list \<Rightarrow> (jsval \<times> char list) option" where
  "parse_value cs =
     (case cs of
        [] \<Rightarrow> None
      | c # cs' \<Rightarrow>
          if c = CHR ''n'' then map_option (Pair JNull) (expect ''null'' cs)
          else if c = CHR ''t'' then map_option (Pair (JBool True)) (expect ''true'' cs)
          else if c = CHR ''f'' then map_option (Pair (JBool False)) (expect ''false'' cs)
          else if c = CHR 0x22 then map_option (apfst JStr) (string_body cs')
          else parse_number cs)"





definition parse_member :: "char list \<Rightarrow> ((string \<times> jsval) \<times> char list) option" where
  "parse_member cs =
     (case cs of
        [] \<Rightarrow> None
      | c # cs' \<Rightarrow>
          if c = CHR 0x22
          then (case string_body cs' of
                  None \<Rightarrow> None
                | Some (k, rest) \<Rightarrow>
                    (case rest of
                       [] \<Rightarrow> None
                     | c' # rest' \<Rightarrow>
                         if c' = CHR '':''
                         then map_option (apfst (Pair k)) (parse_value rest')
                         else None))
          else None)"

text \<open>
  The members of an object and the elements of the array are read in a loop that ends at
  the closing bracket; the fuel bounds the number of rounds, and the length of the text is
  enough fuel for every text.
\<close>

fun parse_members :: "nat \<Rightarrow> char list \<Rightarrow> (props \<times> char list) option" where
  "parse_members 0 cs = None"
| "parse_members (Suc fuel) cs =
     (case parse_member cs of
        None \<Rightarrow> None
      | Some (m, rest) \<Rightarrow>
          (case rest of
             [] \<Rightarrow> None
           | c # rest' \<Rightarrow>
               if c = CHR '','' then map_option (apfst ((#) m)) (parse_members fuel rest')
               else if c = CHR ''}'' then Some ([m], rest')
               else None))"

definition parse_object :: "nat \<Rightarrow> char list \<Rightarrow> (props \<times> char list) option" where
  "parse_object fuel cs =
     (case cs of
        c # cs' \<Rightarrow>
          if c = CHR ''{''
          then (case cs' of
                  c' # cs'' \<Rightarrow> if c' = CHR ''}'' then Some ([], cs'') else parse_members fuel cs'
                | [] \<Rightarrow> None)
          else None
      | [] \<Rightarrow> None)"

fun parse_elements :: "nat \<Rightarrow> nat \<Rightarrow> char list \<Rightarrow> (props list \<times> char list) option" where
  "parse_elements 0 inner cs = None"
| "parse_elements (Suc fuel) inner cs =
     (case parse_object inner cs of
        None \<Rightarrow> None
      | Some (p, rest) \<Rightarrow>
          (case rest of
             [] \<Rightarrow> None
           | c # rest' \<Rightarrow>
               if c = CHR '','' then map_option (apfst ((#) p)) (parse_elements fuel inner rest')
               else if c = CHR '']'' then Some ([p], rest')
               else None))"

definition parse_array :: "nat \<Rightarrow> char list \<Rightarrow> (props list \<times> char list) option" where
  "parse_array fuel cs =
     (case cs of
        c # cs' \<Rightarrow>
          if c = CHR ''[''
          then (case cs' of
                  c' # cs'' \<Rightarrow>
                    if c' = CHR '']'' then Some ([], cs'') else parse_elements fuel fuel cs'
                | [] \<Rightarrow> None)
          else None
      | [] \<Rightarrow> None)"

text \<open>
  \<^verbatim>\<open>JSON.parse(raw) as T[]\<close>: a text that is not an array of objects, or that has
  anything after the array, is a syntax error here.
\<close>

definition json_parse :: "string \<Rightarrow> error + props list" where
  "json_parse raw =
     (case parse_array (length raw) raw of
        Some (ps, []) \<Rightarrow> Inr ps
      | _ \<Rightarrow> Inl SyntaxError)"

text \<open>
  What a value and a record come back as: an \<^verbatim>\<open>undefined\<close> property is gone, and a
  number that has no numeral has become \<^verbatim>\<open>null\<close>.
\<close>








section \<open>Properties\<close>

subsection \<open>Create, update and delete on a collection\<close>

lemma coll_Delete:
  "coll k' (dispatch (Delete k ident) s) =
     (if k' = k then filter (\<lambda>item. field item ''id'' \<noteq> JStr ident) (coll k s) else coll k' s)"
  by (cases k; cases k';
      simp add: deletePart_def deleteRevision_def deleteTeamMember_def deleteClient_def
        deleteSupplier_def)

lemma isReady_Delete: "isReady (dispatch (Delete k ident) s) = isReady s"
  by (cases k;
      simp add: deletePart_def deleteRevision_def deleteTeamMember_def deleteClient_def
        deleteSupplier_def)

lemma coll_Update:
  "coll k' (dispatch (Update k ident now input) s) =
     (if k' = k
      then map (\<lambda>item.
             if field item ''id'' = JStr ident
             then (if k = Parts
                   then (item ++ input)(''updatedAt'' \<mapsto> JStr now, ''id'' \<mapsto> JStr ident)
                   else (item ++ input)(''id'' \<mapsto> JStr ident))
             else item) (coll k s)
      else coll k' s)"
  by (cases k; cases k';
      simp add: updatePart_def updateRevision_def updateTeamMember_def updateClient_def
        updateSupplier_def)

lemma coll_Create:
  "coll k' (dispatch (Create k newId now input) s) =
     (if k' = k
      then ((if k = Parts then [''id'' \<mapsto> JStr newId, ''updatedAt'' \<mapsto> JStr now]
             else [''id'' \<mapsto> JStr newId]) ++ input) # coll k s
      else coll k' s)"
  by (cases k; cases k';
      simp add: createPart_def createRevision_def createTeamMember_def createClient_def
        createSupplier_def)

lemma isReady_dispatch: "isReady (dispatch a s) = isReady s"
proof (cases a)
  case (Create k newId now input)
  then show ?thesis
    by (cases k;
        simp add: createPart_def createRevision_def createTeamMember_def createClient_def
          createSupplier_def)
next
  case (Update k ident now input)
  then show ?thesis
    by (cases k;
        simp add: updatePart_def updateRevision_def updateTeamMember_def updateClient_def
          updateSupplier_def)
next
  case (Delete k ident)
  then show ?thesis by (simp add: isReady_Delete)
qed

lemma store_eqI:
  "isReady s = isReady s' \<Longrightarrow> (\<And>k. coll k s = coll k s') \<Longrightarrow> (s::store) = s'"
proof -
  assume r: "isReady s = isReady s'" and c: "\<And>k. coll k s = coll k s'"
  from c[of Parts] c[of Revisions] c[of Team] c[of Clients] c[of Suppliers] r
  show ?thesis by simp
qed

text \<open>
  Claim C3. In any of the five collections, when exactly one record carries the identity
  \<open>ident\<close>, deleting \<open>ident\<close> gives a collection one shorter in which no record carries
  it; when no record carries it, the delete leaves the store as it was and the collection
  keeps its size.
\<close>

theorem delete_exactly_one:
  "(length (filter (\<lambda>item. field item ''id'' = JStr ident) (coll k s)) = 1 \<longrightarrow>
      length (coll k (dispatch (Delete k ident) s)) = length (coll k s) - 1
      \<and> (\<forall>item \<in> set (coll k (dispatch (Delete k ident) s)). field item ''id'' \<noteq> JStr ident))
   \<and> ((\<forall>item \<in> set (coll k s). field item ''id'' \<noteq> JStr ident) \<longrightarrow>
      dispatch (Delete k ident) s = s
      \<and> length (coll k (dispatch (Delete k ident) s)) = length (coll k s))"
proof (intro conjI impI)
  let ?P = "\<lambda>item. field item ''id'' = JStr ident"
  assume one: "length (filter ?P (coll k s)) = 1"
  have "length (filter ?P (coll k s)) + length (filter (\<lambda>x. \<not> ?P x) (coll k s)) = length (coll k s)"
    by (rule sum_length_filter_compl)
  with one show "length (coll k (dispatch (Delete k ident) s)) = length (coll k s) - 1"
    by (simp add: coll_Delete)
next
  show "\<forall>item \<in> set (coll k (dispatch (Delete k ident) s)). field item ''id'' \<noteq> JStr ident"
    by (simp add: coll_Delete)
next
  assume none: "\<forall>item \<in> set (coll k s). field item ''id'' \<noteq> JStr ident"
  then have f: "filter (\<lambda>item. field item ''id'' \<noteq> JStr ident) (coll k s) = coll k s"
    by (simp add: filter_id_conv)
  show "dispatch (Delete k ident) s = s"
    by (rule store_eqI) (simp_all add: isReady_Delete coll_Delete f)
  then show "length (coll k (dispatch (Delete k ident) s)) = length (coll k s)"
    by simp
qed

text \<open>
  Claim C10. In any state of any of the five collections, also when several records share
  an identity, deleting \<open>ident\<close> keeps exactly the records with another identity, in
  their order: none with \<open>ident\<close> is left, every other record is still there, and the
  size drops by the number of records that carried \<open>ident\<close>.
\<close>

theorem delete_removes_every_match:
  "coll k (dispatch (Delete k ident) s) =
     filter (\<lambda>item. field item ''id'' \<noteq> JStr ident) (coll k s)
   \<and> (\<forall>item \<in> set (coll k (dispatch (Delete k ident) s)). field item ''id'' \<noteq> JStr ident)
   \<and> (\<forall>item \<in> set (coll k s). field item ''id'' \<noteq> JStr ident \<longrightarrow>
        item \<in> set (coll k (dispatch (Delete k ident) s)))
   \<and> length (coll k (dispatch (Delete k ident) s)) =
       length (coll k s) - length (filter (\<lambda>item. field item ''id'' = JStr ident) (coll k s))"
proof -
  let ?P = "\<lambda>item. field item ''id'' = JStr ident"
  have "length (filter ?P (coll k s)) + length (filter (\<lambda>x. \<not> ?P x) (coll k s)) = length (coll k s)"
    by (rule sum_length_filter_compl)
  then show ?thesis
    by (simp add: coll_Delete)
qed

theorem delete_removes_every_match_witness:
  "map (\<lambda>item. field item ''name'') (coll Team (dispatch (Delete Team ''m1'') dup_store))
     = [JStr ''Bruno'', JStr ''Davi'']
   \<and> length (coll Team (dispatch (Delete Team ''m1'') dup_store)) = 2"
  using delete_removes_every_match [of Team "''m1''" dup_store]
  by (simp add: dup_store_def initialStore_def field_def)

theorem delete_exactly_one_witness:
  "length (coll Team (dispatch (Delete Team ''m2'') dup_store)) = 3
   \<and> dispatch (Delete Team ''m9'') dup_store = dup_store"
  using delete_exactly_one [of "''m2''" Team dup_store] delete_exactly_one [of "''m9''" Team dup_store]
  by (simp add: dup_store_def initialStore_def field_def)

lemma conforms_Omit_absent:
  "conforms (Omit T ks) ob \<Longrightarrow> key \<in> set ks \<Longrightarrow> ob key = None"
  by (auto simp: conforms_def Omit_def domIff)

lemma createInput_no_id: "conforms (createInput k) input \<Longrightarrow> input ''id'' = None"
  by (cases k) (auto dest: conforms_Omit_absent [where key = "''id''"])

text \<open>
  Claim C2. For every store and every input of the declared input type of the create
  operation, the collection after the create is a new first record followed by the
  previous collection unchanged. The new record carries the generated identity, for a
  part the timestamp of the call, and every property of the input with the input's value,
  and nothing else; the other collections are untouched.
\<close>

theorem create_prepends:
  assumes "conforms (createInput k) input"
  shows "\<exists>r. coll k (dispatch (Create k newId now input) s) = r # coll k s
      \<and> field r ''id'' = JStr newId
      \<and> (k = Parts \<longrightarrow> field r ''updatedAt'' = JStr now)
      \<and> (\<forall>key \<in> dom input. r key = input key)
      \<and> dom r = dom input \<union> (if k = Parts then {''id'', ''updatedAt''} else {''id''})
      \<and> (\<forall>k'. k' \<noteq> k \<longrightarrow> coll k' (dispatch (Create k newId now input) s) = coll k' s)"
proof -
  have noid: "input ''id'' = None"
    using assms by (rule createInput_no_id)
  have noupd: "k = Parts \<Longrightarrow> input ''updatedAt'' = None"
    using assms by (auto dest: conforms_Omit_absent [where key = "''updatedAt''"])
  show ?thesis
    using noid noupd
    by (auto simp: coll_Create field_def map_add_def domIff split: option.splits)
qed

lemma pad_input_conforms: "conforms (createInput Parts) pad_input"
  by (simp add: conforms_def Omit_def Part_def pad_input_def)

theorem create_prepends_witness:
  "conforms (createInput Parts) pad_input
   \<and> (\<exists>r. coll Parts (dispatch (Create Parts ''p7'' ''2025-11-02T10:00:00.000Z'' pad_input)
             initialStore) = [r]
        \<and> field r ''id'' = JStr ''p7''
        \<and> field r ''updatedAt'' = JStr ''2025-11-02T10:00:00.000Z''
        \<and> r ''quantity'' = Some (JNum 5) \<and> r ''minStock'' = Some (JNum 10))"
proof -
  obtain r where r:
      "coll Parts (dispatch (Create Parts ''p7'' ''2025-11-02T10:00:00.000Z'' pad_input)
         initialStore) = r # coll Parts initialStore"
      "field r ''id'' = JStr ''p7''"
      "field r ''updatedAt'' = JStr ''2025-11-02T10:00:00.000Z''"
      "\<forall>key \<in> dom pad_input. r key = pad_input key"
    using create_prepends [OF pad_input_conforms, of "''p7''" "''2025-11-02T10:00:00.000Z''" initialStore]
    by auto
  from r(4) have "r ''quantity'' = Some (JNum 5)" "r ''minStock'' = Some (JNum 10)"
    by (simp_all add: pad_input_def)
  with r pad_input_conforms show ?thesis
    by (simp add: initialStore_def)
qed

text \<open>
  Claim C1, amended. An update on a record that carries the identity keeps the size of the
  collection, the position of the record and its identity. Every property the input
  carries is replaced by the input's value; a property the input does not carry keeps the
  record's old value. With an input of the declared type every required property is
  replaced, so only an omitted optional property can survive. For a part the stored
  \<^verbatim>\<open>updatedAt\<close> is the time of the update, whatever the input carries. Records
  with another identity and the other collections are unchanged.
\<close>

theorem update_merges_input:
  assumes "i < length (coll k s)" and "field (coll k s ! i) ''id'' = JStr ident"
  shows "length (coll k (dispatch (Update k ident now input) s)) = length (coll k s)
   \<and> field (coll k (dispatch (Update k ident now input) s) ! i) ''id'' = JStr ident
   \<and> (k = Parts \<longrightarrow>
        field (coll k (dispatch (Update k ident now input) s) ! i) ''updatedAt'' = JStr now)
   \<and> (\<forall>key. key \<noteq> ''id'' \<and> (k = Parts \<longrightarrow> key \<noteq> ''updatedAt'') \<longrightarrow>
        (coll k (dispatch (Update k ident now input) s) ! i) key =
          (if key \<in> dom input then input key else (coll k s ! i) key))
   \<and> (conforms (updateInput k) input \<longrightarrow>
        (\<forall>(key, t, opt) \<in> set (updateInput k).
           \<not> opt \<and> (k = Parts \<longrightarrow> key \<noteq> ''updatedAt'') \<longrightarrow>
           field (coll k (dispatch (Update k ident now input) s) ! i) key = field input key))
   \<and> (\<forall>j < length (coll k s). field (coll k s ! j) ''id'' \<noteq> JStr ident \<longrightarrow>
        coll k (dispatch (Update k ident now input) s) ! j = coll k s ! j)
   \<and> (\<forall>k'. k' \<noteq> k \<longrightarrow> coll k' (dispatch (Update k ident now input) s) = coll k' s)"
proof -
  let ?s' = "dispatch (Update k ident now input) s"
  have req: "key \<noteq> ''id'' \<and> key \<in> dom input"
    if cf: "conforms (updateInput k) input" and mem: "(key, t, opt) \<in> set (updateInput k)"
      and ropt: "\<not> opt" for key t opt
  proof
    from mem show "key \<noteq> ''id''"
      by (auto simp: updateInput_def Omit_def)
    from cf mem have "case input key of None \<Rightarrow> opt | Some v \<Rightarrow> has_type t v \<or> (opt \<and> v = JUndefined)"
      unfolding conforms_def by blast
    with ropt show "key \<in> dom input"
      by (cases "input key") auto
  qed
  have new: "coll k ?s' ! i =
      (if k = Parts
       then (coll k s ! i ++ input)(''updatedAt'' \<mapsto> JStr now, ''id'' \<mapsto> JStr ident)
       else (coll k s ! i ++ input)(''id'' \<mapsto> JStr ident))"
    using assms by (simp add: coll_Update)
  have l: "length (coll k ?s') = length (coll k s)"
    by (simp add: coll_Update)
  have a: "field (coll k ?s' ! i) ''id'' = JStr ident"
    unfolding new by (simp add: field_def)
  have b: "k = Parts \<longrightarrow> field (coll k ?s' ! i) ''updatedAt'' = JStr now"
    unfolding new by (simp add: field_def)
  have c: "(coll k ?s' ! i) key = (if key \<in> dom input then input key else (coll k s ! i) key)"
    if "key \<noteq> ''id''" "k = Parts \<longrightarrow> key \<noteq> ''updatedAt''" for key
    using that unfolding new by (auto simp: map_add_def domIff split: option.splits)
  have d: "field (coll k ?s' ! i) key = field input key"
    if "conforms (updateInput k) input" "(key, t, opt) \<in> set (updateInput k)" "\<not> opt"
       "k = Parts \<longrightarrow> key \<noteq> ''updatedAt''" for key t opt
  proof -
    from req [OF that(1,2,3)] have "key \<noteq> ''id''" "key \<in> dom input" by simp_all
    with c [OF \<open>key \<noteq> ''id''\<close> that(4)] show ?thesis by (simp add: field_def)
  qed
  have c': "\<forall>key. key \<noteq> ''id'' \<and> (k = Parts \<longrightarrow> key \<noteq> ''updatedAt'') \<longrightarrow>
      (coll k ?s' ! i) key = (if key \<in> dom input then input key else (coll k s ! i) key)"
    using c by blast
  have e: "conforms (updateInput k) input \<longrightarrow>
      (\<forall>(key, t, opt) \<in> set (updateInput k).
         \<not> opt \<and> (k = Parts \<longrightarrow> key \<noteq> ''updatedAt'') \<longrightarrow>
         field (coll k ?s' ! i) key = field input key)"
    using d by blast
  have f: "\<forall>j < length (coll k s). field (coll k s ! j) ''id'' \<noteq> JStr ident \<longrightarrow>
      coll k ?s' ! j = coll k s ! j"
    by (simp add: coll_Update)
  have g: "\<forall>k'. k' \<noteq> k \<longrightarrow> coll k' ?s' = coll k' s"
    by (simp add: coll_Update)
  from l a b c' e f g show ?thesis
    by (intro conjI)
qed

text \<open>
  Claim C1 as stated fails: a revision with a note, updated with a well-typed input that
  leaves the optional \<^verbatim>\<open>notes\<close> out, keeps its old note, although the input's
  \<^verbatim>\<open>notes\<close> reads \<^verbatim>\<open>undefined\<close>.
\<close>

theorem update_replaces_all_counterexample:
  "conforms Revision rev_item
   \<and> conforms (updateInput Revisions) rev_input
   \<and> coll Revisions rev_store = [rev_item]
   \<and> field rev_item ''id'' = JStr ''r1''
   \<and> field rev_input ''notes'' = JUndefined
   \<and> field (coll Revisions (dispatch (Update Revisions ''r1'' [] rev_input) rev_store) ! 0) ''notes''
       = JStr ''Cliente aguarda contato''"
  by (simp add: conforms_def updateInput_def Omit_def Revision_def rev_item_def rev_input_def
      rev_store_def initialStore_def updateRevision_def field_def)

lemma part_input_conforms: "conforms (updateInput Parts) part_input"
  by (simp add: conforms_def updateInput_def Omit_def Part_def part_input_def pad_input_def)

theorem update_merges_input_witness:
  "conforms (updateInput Parts) part_input
   \<and> field part_input ''updatedAt'' = JStr ''2025-01-01T00:00:00.000Z''
   \<and> (0::nat) < length (coll Parts part_store)
   \<and> field (coll Parts part_store ! 0) ''id'' = JStr ''p1''
   \<and> field (coll Parts (dispatch (Update Parts ''p1'' ''2025-11-02T10:00:00.000Z'' part_input)
        part_store) ! 0) ''id'' = JStr ''p1''
   \<and> field (coll Parts (dispatch (Update Parts ''p1'' ''2025-11-02T10:00:00.000Z'' part_input)
        part_store) ! 0) ''updatedAt'' = JStr ''2025-11-02T10:00:00.000Z''
   \<and> field (coll Parts (dispatch (Update Parts ''p1'' ''2025-11-02T10:00:00.000Z'' part_input)
        part_store) ! 0) ''quantity'' = JNum 5"
proof -
  let ?s' = "dispatch (Update Parts ''p1'' ''2025-11-02T10:00:00.000Z'' part_input) part_store"
  have len: "(0::nat) < length (coll Parts part_store)"
    by (simp add: part_store_def)
  have idm: "field (coll Parts part_store ! 0) ''id'' = JStr ''p1''"
    by (simp add: part_store_def part_item_def field_def)
  have q: "(''quantity'', TNumber, False) \<in> set (updateInput Parts)"
    by (simp add: updateInput_def Omit_def Part_def)
  have fq: "field part_input ''quantity'' = JNum 5"
    by (simp add: part_input_def pad_input_def field_def)
  have fu: "field part_input ''updatedAt'' = JStr ''2025-01-01T00:00:00.000Z''"
    by (simp add: part_input_def field_def)
  note u = update_merges_input [OF len idm, of "''2025-11-02T10:00:00.000Z''" part_input]
  have m1: "field (coll Parts ?s' ! 0) ''id'' = JStr ''p1''"
    using u by (elim conjE)
  have m2: "field (coll Parts ?s' ! 0) ''updatedAt'' = JStr ''2025-11-02T10:00:00.000Z''"
    using u by (elim conjE) (simp only: simp_thms)
  have m3: "conforms (updateInput Parts) part_input \<longrightarrow>
      (\<forall>(key, t, opt) \<in> set (updateInput Parts).
         \<not> opt \<and> (Parts = Parts \<longrightarrow> key \<noteq> ''updatedAt'') \<longrightarrow>
         field (coll Parts ?s' ! 0) key = field part_input key)"
    using u by (elim conjE)
  from m3 [rule_format, OF part_input_conforms q]
  have "field (coll Parts ?s' ! 0) ''quantity'' = JNum 5"
    using fq by simp
  with m1 m2 part_input_conforms fu len idm show ?thesis
    by (intro conjI)
qed

subsection \<open>Loading and persisting\<close>

lemma loadCollection_unfold:
  "loadCollection JSON_stringify JSON_parse key fallback d =
     (if rejectsRead d key then (Inr fallback, d)
      else if falsy (items d key)
      then (if rejectsWrite d key then (Inr fallback, d)
            else (Inr fallback, d\<lparr>items := (items d)(key \<mapsto> JSON_stringify fallback)\<rparr>))
      else (case JSON_parse (the (items d key)) of
              Inl e \<Rightarrow> (Inr fallback, d)
            | Inr parsed \<Rightarrow> (Inr parsed, d)))"
  by (simp add: loadCollection_def try_catch_def await_def getItem_def setItem_def resolve_def
      reject_def split: sum.splits)

lemma persistCollection_unfold:
  "persistCollection JSON_stringify key v d =
     (Inr (), if rejectsWrite d key then d else d\<lparr>items := (items d)(key \<mapsto> JSON_stringify v)\<rparr>)"
  by (simp add: persistCollection_def try_catch_def await_def setItem_def resolve_def)

lemma load_fst:
  "fst (loadCollection JSON_stringify JSON_parse key fallback d) =
     Inr (loadValue JSON_parse key fallback d)"
  by (simp add: loadCollection_unfold loadValue_def split: sum.splits)

lemma load_rejectsRead:
  "rejectsRead (snd (loadCollection JSON_stringify JSON_parse key fallback d)) = rejectsRead d"
  by (simp add: loadCollection_unfold split: sum.splits)

lemma load_rejectsWrite:
  "rejectsWrite (snd (loadCollection JSON_stringify JSON_parse key fallback d)) = rejectsWrite d"
  by (simp add: loadCollection_unfold split: sum.splits)

lemma load_items:
  "items (snd (loadCollection JSON_stringify JSON_parse key fallback d)) key' =
     (if key' = key \<and> \<not> rejectsRead d key \<and> falsy (items d key) \<and> \<not> rejectsWrite d key
      then Some (JSON_stringify fallback) else items d key')"
  by (simp add: loadCollection_unfold split: sum.splits)

lemma persist_fst: "fst (persistCollection JSON_stringify key v d) = Inr ()"
  by (simp add: persistCollection_unfold)

lemma persist_rejectsRead:
  "rejectsRead (snd (persistCollection JSON_stringify key v d)) = rejectsRead d"
  by (simp add: persistCollection_unfold)

lemma persist_rejectsWrite:
  "rejectsWrite (snd (persistCollection JSON_stringify key v d)) = rejectsWrite d"
  by (simp add: persistCollection_unfold)

lemma persist_items:
  "items (snd (persistCollection JSON_stringify key v d)) key' =
     (if key' = key \<and> \<not> rejectsWrite d key then Some (JSON_stringify v) else items d key')"
  by (simp add: persistCollection_unfold)

lemma await_fulfilled:
  "fst (m d) = Inr x \<Longrightarrow> await m f d = f x (snd (m d))"
  by (cases "m d") (simp add: await_def)

lemma STORAGE_KEYS_inj: "STORAGE_KEYS k = STORAGE_KEYS k' \<longleftrightarrow> k = k'"
  by (cases k; cases k'; simp)

lemma bootstrap_snd_unfold:
  "snd (bootstrap JSON_stringify JSON_parse gen isoAt s d) =
     snd (loadCollection JSON_stringify JSON_parse (STORAGE_KEYS Suppliers) (defaultSuppliers gen isoAt)
     (snd (loadCollection JSON_stringify JSON_parse (STORAGE_KEYS Clients) (defaultClients gen isoAt)
     (snd (loadCollection JSON_stringify JSON_parse (STORAGE_KEYS Team) (defaultTeam gen isoAt)
     (snd (loadCollection JSON_stringify JSON_parse (STORAGE_KEYS Revisions) (defaultRevisions gen isoAt)
     (snd (loadCollection JSON_stringify JSON_parse (STORAGE_KEYS Parts) (defaultParts gen isoAt) d)))))))))"
  unfolding bootstrap_def
  by (simp only: await_fulfilled [OF load_fst] resolve_def snd_conv)

lemma bootstrap_rejectsRead:
  "rejectsRead (snd (bootstrap JSON_stringify JSON_parse gen isoAt s d)) = rejectsRead d"
  by (simp only: bootstrap_snd_unfold load_rejectsRead)

lemma bootstrap_rejectsWrite:
  "rejectsWrite (snd (bootstrap JSON_stringify JSON_parse gen isoAt s d)) = rejectsWrite d"
  by (simp only: bootstrap_snd_unfold load_rejectsWrite)

lemma bootstrap_items:
  "items (snd (bootstrap JSON_stringify JSON_parse gen isoAt s d)) (STORAGE_KEYS k) =
     (if \<not> rejectsRead d (STORAGE_KEYS k) \<and> falsy (items d (STORAGE_KEYS k))
         \<and> \<not> rejectsWrite d (STORAGE_KEYS k)
      then Some (JSON_stringify (defaults gen isoAt k)) else items d (STORAGE_KEYS k))"
  by (cases k;
      simp add: bootstrap_snd_unfold load_items load_rejectsRead load_rejectsWrite)

lemma bootstrap_fst:
  "fst (bootstrap JSON_stringify JSON_parse gen isoAt s d) =
     Inr (s\<lparr>parts := loadValue JSON_parse (STORAGE_KEYS Parts) (defaultParts gen isoAt) d,
            revisions := loadValue JSON_parse (STORAGE_KEYS Revisions) (defaultRevisions gen isoAt) d,
            team := loadValue JSON_parse (STORAGE_KEYS Team) (defaultTeam gen isoAt) d,
            clients := loadValue JSON_parse (STORAGE_KEYS Clients) (defaultClients gen isoAt) d,
            suppliers := loadValue JSON_parse (STORAGE_KEYS Suppliers) (defaultSuppliers gen isoAt) d,
            isReady := True\<rparr>)"
proof -
  have other: "loadValue JSON_parse key fb (snd (loadCollection JSON_stringify JSON_parse key' fb' d0))
      = loadValue JSON_parse key fb d0" if "key \<noteq> key'" for key key' fb fb' d0
    using that by (simp add: loadValue_def load_items load_rejectsRead)
  show ?thesis
    unfolding bootstrap_def
    by (simp add: await_fulfilled [OF load_fst] resolve_def other)
qed

lemma coll_bootstrap:
  "fst (bootstrap JSON_stringify JSON_parse gen isoAt s d) = Inr s' \<Longrightarrow>
     coll k s' = loadValue JSON_parse (STORAGE_KEYS k) (defaults gen isoAt k) d \<and> isReady s'"
  by (cases k) (auto simp: bootstrap_fst)

lemma persistEffect_ready:
  "isReady s \<Longrightarrow> persistEffect JSON_stringify k s =
     persistCollection JSON_stringify (STORAGE_KEYS k) (coll k s)"
  by (simp add: persistEffect_def)

lemma persistEffect_fst: "fst (persistEffect JSON_stringify k s d) = Inr ()"
  by (simp add: persistEffect_def persist_fst resolve_def)

lemma startup_snd_unfold:
  assumes "fst (bootstrap JSON_stringify JSON_parse gen isoAt initialStore d) = Inr s"
  shows "startup JSON_stringify JSON_parse gen isoAt d =
     (Inr s,
      snd (persistCollection JSON_stringify (STORAGE_KEYS Suppliers) (coll Suppliers s)
     (snd (persistCollection JSON_stringify (STORAGE_KEYS Clients) (coll Clients s)
     (snd (persistCollection JSON_stringify (STORAGE_KEYS Team) (coll Team s)
     (snd (persistCollection JSON_stringify (STORAGE_KEYS Revisions) (coll Revisions s)
     (snd (persistCollection JSON_stringify (STORAGE_KEYS Parts) (coll Parts s)
     (snd (bootstrap JSON_stringify JSON_parse gen isoAt initialStore d))))))))))))"
proof -
  have r: "isReady s"
    using coll_bootstrap [OF assms, of Parts] by simp
  show ?thesis
    unfolding startup_def
    by (simp only: await_fulfilled [where m = "bootstrap JSON_stringify JSON_parse gen isoAt initialStore", OF assms]
        persistEffect_ready [OF r] await_fulfilled [OF persist_fst] resolve_def)
qed

lemma startup_result:
  "\<exists>s d'. startup JSON_stringify JSON_parse gen isoAt d = (Inr s, d')
     \<and> isReady s
     \<and> (\<forall>k. coll k s = loadValue JSON_parse (STORAGE_KEYS k) (defaults gen isoAt k) d)
     \<and> (\<forall>k. items d' (STORAGE_KEYS k) =
          (if rejectsWrite d (STORAGE_KEYS k) then items d (STORAGE_KEYS k)
           else Some (JSON_stringify (coll k s))))
     \<and> rejectsRead d' = rejectsRead d \<and> rejectsWrite d' = rejectsWrite d"
proof -
  obtain s where b: "fst (bootstrap JSON_stringify JSON_parse gen isoAt initialStore d) = Inr s"
    by (simp add: bootstrap_fst)
  note u = startup_snd_unfold [OF b]
  have c: "coll k s = loadValue JSON_parse (STORAGE_KEYS k) (defaults gen isoAt k) d" for k
    using coll_bootstrap [OF b, of k] by simp
  have r: "isReady s"
    using coll_bootstrap [OF b, of Parts] by simp
  have i: "items (snd (startup JSON_stringify JSON_parse gen isoAt d)) (STORAGE_KEYS k) =
      (if rejectsWrite d (STORAGE_KEYS k) then items d (STORAGE_KEYS k)
       else Some (JSON_stringify (coll k s)))" for k
    unfolding u
    by (cases k;
        simp add: persist_items persist_rejectsWrite bootstrap_rejectsWrite bootstrap_items
          STORAGE_KEYS_inj del: STORAGE_KEYS.simps)
  have fr: "rejectsRead (snd (startup JSON_stringify JSON_parse gen isoAt d)) = rejectsRead d"
    unfolding u by (simp only: snd_conv persist_rejectsRead bootstrap_rejectsRead)
  have fw: "rejectsWrite (snd (startup JSON_stringify JSON_parse gen isoAt d)) = rejectsWrite d"
    unfolding u by (simp only: snd_conv persist_rejectsWrite bootstrap_rejectsWrite)
  have "startup JSON_stringify JSON_parse gen isoAt d =
      (Inr s, snd (startup JSON_stringify JSON_parse gen isoAt d))"
    unfolding u by simp
  with r c i fr fw show ?thesis by blast
qed

lemma startup_fst:
  "fst (startup JSON_stringify JSON_parse gen isoAt d) =
     fst (bootstrap JSON_stringify JSON_parse gen isoAt initialStore d)"
proof -
  obtain s where b: "fst (bootstrap JSON_stringify JSON_parse gen isoAt initialStore d) = Inr s"
    by (simp add: bootstrap_fst)
  show ?thesis
    by (simp add: startup_snd_unfold [OF b] b)
qed

lemma startup_coll:
  "\<exists>s. fst (startup JSON_stringify JSON_parse gen isoAt d) = Inr s \<and> isReady s
     \<and> (\<forall>k. coll k s = loadValue JSON_parse (STORAGE_KEYS k) (defaults gen isoAt k) d)"
  using startup_result [of JSON_stringify JSON_parse gen isoAt d] by auto

lemma startup_items:
  "items (snd (startup JSON_stringify JSON_parse gen isoAt d)) (STORAGE_KEYS k) =
     (if rejectsWrite d (STORAGE_KEYS k) then items d (STORAGE_KEYS k)
      else Some (JSON_stringify (loadValue JSON_parse (STORAGE_KEYS k) (defaults gen isoAt k) d)))"
  using startup_result [of JSON_stringify JSON_parse gen isoAt d] by auto

lemma team_names:
  "map (\<lambda>r. field r ''name'') (defaultTeam gen isoAt) =
     [JStr ''Renato Albuquerque'', JStr ''Isabela Monteiro'']"
  by (simp add: defaultTeam_def field_def)

text \<open>
  Claim C5, amended. When a collection key has no stored value, the startup fulfils with a
  ready store whose collection is the seed list (for the team: the two records named
  Renato Albuquerque and Isabela Monteiro). The storage holds the serialised seed list
  under the key afterwards when it accepts the write of that key; when it rejects the
  write the key stays absent. The same holds for the load alone, which in addition writes
  nothing when the read is rejected.
\<close>

theorem seed_on_absent:
  assumes "items d (STORAGE_KEYS k) = None"
  shows "(\<exists>s. fst (startup JSON_stringify JSON_parse gen isoAt d) = Inr s \<and> isReady s
            \<and> coll k s = defaults gen isoAt k
            \<and> (k = Team \<longrightarrow> map (\<lambda>r. field r ''name'') (coll k s) =
                  [JStr ''Renato Albuquerque'', JStr ''Isabela Monteiro'']))
     \<and> items (snd (startup JSON_stringify JSON_parse gen isoAt d)) (STORAGE_KEYS k) =
         (if rejectsWrite d (STORAGE_KEYS k) then None
          else Some (JSON_stringify (defaults gen isoAt k)))
     \<and> fst (loadCollection JSON_stringify JSON_parse (STORAGE_KEYS k) (defaults gen isoAt k) d) =
         Inr (defaults gen isoAt k)
     \<and> items (snd (loadCollection JSON_stringify JSON_parse (STORAGE_KEYS k) (defaults gen isoAt k) d))
           (STORAGE_KEYS k) =
         (if rejectsRead d (STORAGE_KEYS k) \<or> rejectsWrite d (STORAGE_KEYS k) then None
          else Some (JSON_stringify (defaults gen isoAt k)))"
proof -
  have lv: "loadValue JSON_parse (STORAGE_KEYS k) (defaults gen isoAt k) d = defaults gen isoAt k"
    using assms by (simp add: loadValue_def falsy_def)
  obtain s where s: "fst (startup JSON_stringify JSON_parse gen isoAt d) = Inr s" "isReady s"
      "coll k s = defaults gen isoAt k"
    using startup_coll [of JSON_stringify JSON_parse gen isoAt d] lv by auto
  have nm: "k = Team \<longrightarrow> map (\<lambda>r. field r ''name'') (coll k s) =
      [JStr ''Renato Albuquerque'', JStr ''Isabela Monteiro'']"
    using s(3) by (auto simp: team_names)
  have a: "\<exists>s. fst (startup JSON_stringify JSON_parse gen isoAt d) = Inr s \<and> isReady s
            \<and> coll k s = defaults gen isoAt k
            \<and> (k = Team \<longrightarrow> map (\<lambda>r. field r ''name'') (coll k s) =
                  [JStr ''Renato Albuquerque'', JStr ''Isabela Monteiro''])"
    using s nm by (intro exI [of _ s] conjI)
  have b: "items (snd (startup JSON_stringify JSON_parse gen isoAt d)) (STORAGE_KEYS k) =
         (if rejectsWrite d (STORAGE_KEYS k) then None
          else Some (JSON_stringify (defaults gen isoAt k)))"
    using assms by (simp add: startup_items lv)
  have c: "fst (loadCollection JSON_stringify JSON_parse (STORAGE_KEYS k) (defaults gen isoAt k) d) =
         Inr (defaults gen isoAt k)"
    by (simp add: load_fst lv)
  have e: "items (snd (loadCollection JSON_stringify JSON_parse (STORAGE_KEYS k) (defaults gen isoAt k) d))
           (STORAGE_KEYS k) =
         (if rejectsRead d (STORAGE_KEYS k) \<or> rejectsWrite d (STORAGE_KEYS k) then None
          else Some (JSON_stringify (defaults gen isoAt k)))"
    using assms by (simp add: load_items falsy_def)
  from a b c e show ?thesis by (intro conjI)
qed

lemma empty_disk_absent: "items empty_disk (STORAGE_KEYS k) = None"
  by (simp add: empty_disk_def)

theorem seed_on_absent_witness:
  "items empty_disk (STORAGE_KEYS Team) = None
   \<and> (\<exists>s. fst (startup demo_stringify demo_parse demo_gen demo_iso empty_disk) = Inr s
          \<and> isReady s
          \<and> map (\<lambda>r. field r ''name'') (coll Team s) =
               [JStr ''Renato Albuquerque'', JStr ''Isabela Monteiro''])
   \<and> items (snd (startup demo_stringify demo_parse demo_gen demo_iso empty_disk))
        (STORAGE_KEYS Team) = Some ''[{team}]''"
proof -
  note t = seed_on_absent [where d = empty_disk and k = Team and JSON_stringify = demo_stringify
      and JSON_parse = demo_parse and gen = demo_gen and isoAt = demo_iso, OF empty_disk_absent]
  obtain s where s: "fst (startup demo_stringify demo_parse demo_gen demo_iso empty_disk) = Inr s"
      "isReady s"
      "Team = Team \<longrightarrow> map (\<lambda>r. field r ''name'') (coll Team s) =
          [JStr ''Renato Albuquerque'', JStr ''Isabela Monteiro'']"
    using t [THEN conjunct1] by (elim exE conjE)
  have nm: "map (\<lambda>r. field r ''name'') (coll Team s) =
      [JStr ''Renato Albuquerque'', JStr ''Isabela Monteiro'']"
    using s(3) by (simp only: simp_thms)
  have ne: "defaults demo_gen demo_iso Team \<noteq> []"
    by (simp add: defaultTeam_def)
  have st: "items (snd (startup demo_stringify demo_parse demo_gen demo_iso empty_disk))
      (STORAGE_KEYS Team) = Some ''[{team}]''"
    using t [THEN conjunct2, THEN conjunct1] ne
    by (simp add: empty_disk_def demo_stringify_def)
  have ex: "\<exists>s. fst (startup demo_stringify demo_parse demo_gen demo_iso empty_disk) = Inr s
      \<and> isReady s
      \<and> map (\<lambda>r. field r ''name'') (coll Team s) =
          [JStr ''Renato Albuquerque'', JStr ''Isabela Monteiro'']"
    using s(1,2) nm by (intro exI [of _ s] conjI)
  from empty_disk_absent [of Team] ex st show ?thesis
    by (intro conjI)
qed

text \<open>
  Claim C5 as stated fails on a storage that rejects writes: the store is seeded, and the
  key is still absent after the load and after the whole startup.
\<close>

theorem seed_on_absent_counterexample:
  "items full_disk (STORAGE_KEYS Team) = None
   \<and> fst (startup demo_stringify demo_parse demo_gen demo_iso full_disk)
       = Inr (seededStore demo_gen demo_iso)
   \<and> items (snd (startup demo_stringify demo_parse demo_gen demo_iso full_disk))
        (STORAGE_KEYS Team) = None
   \<and> items (snd (loadCollection demo_stringify demo_parse (STORAGE_KEYS Team)
        (defaultTeam demo_gen demo_iso) full_disk)) (STORAGE_KEYS Team) = None"
proof -
  have lv: "loadValue demo_parse (STORAGE_KEYS k) fb full_disk = fb" for k and fb :: "obj list"
    by (simp add: loadValue_def falsy_def full_disk_def)
  have "fst (startup demo_stringify demo_parse demo_gen demo_iso full_disk)
       = Inr (seededStore demo_gen demo_iso)"
    by (simp only: startup_fst bootstrap_fst lv) (simp add: initialStore_def seededStore_def)
  moreover have "items (snd (startup demo_stringify demo_parse demo_gen demo_iso full_disk))
        (STORAGE_KEYS Team) = None"
    by (simp only: startup_items) (simp add: full_disk_def)
  moreover have "items (snd (loadCollection demo_stringify demo_parse (STORAGE_KEYS Team)
        (defaultTeam demo_gen demo_iso) full_disk)) (STORAGE_KEYS Team) = None"
    by (simp only: load_items) (simp add: full_disk_def)
  moreover have "items full_disk (STORAGE_KEYS Team) = None"
    by (simp add: full_disk_def)
  ultimately show ?thesis by (intro conjI)
qed

lemma coll_Update_absent:
  assumes "\<forall>item \<in> set (coll k s). field item ''id'' \<noteq> JStr ident"
  shows "coll k' (dispatch (Update k ident now input) s) = coll k' s"
proof -
  have "map (\<lambda>item.
             if field item ''id'' = JStr ident
             then (if k = Parts
                   then (item ++ input)(''updatedAt'' \<mapsto> JStr now, ''id'' \<mapsto> JStr ident)
                   else (item ++ input)(''id'' \<mapsto> JStr ident))
             else item) (coll k s) = coll k s"
    using assms by (simp add: map_idI)
  then show ?thesis
    by (simp add: coll_Update)
qed

lemma perform_unfold:
  "perform JSON_stringify a s d =
     (Inr (dispatch a s), snd (persistEffect JSON_stringify (target a) (dispatch a s) d))"
  unfolding perform_def
  by (simp only: await_fulfilled [OF persistEffect_fst] resolve_def)

text \<open>
  Claim C4. In any of the five collections, an update or a delete with an identity that no
  record carries leaves the store as it was. No operation rejects: for every action, every
  store and every storage, also one that rejects the write, the call with its persistence
  effect fulfils, with the cells the operation computes.
\<close>

theorem not_found_is_noop:
  "((\<forall>item \<in> set (coll k s). field item ''id'' \<noteq> JStr ident) \<longrightarrow>
       dispatch (Update k ident now input) s = s \<and> dispatch (Delete k ident) s = s)
   \<and> fst (perform JSON_stringify a s d) = Inr (dispatch a s)
   \<and> fst (persistCollection JSON_stringify key xs d) = Inr ()"
proof (intro conjI impI)
  assume none: "\<forall>item \<in> set (coll k s). field item ''id'' \<noteq> JStr ident"
  show "dispatch (Update k ident now input) s = s"
    by (rule store_eqI) (simp_all add: isReady_dispatch coll_Update_absent [OF none])
  from none have f: "filter (\<lambda>item. field item ''id'' \<noteq> JStr ident) (coll k s) = coll k s"
    by (simp add: filter_id_conv)
  show "dispatch (Delete k ident) s = s"
    by (rule store_eqI) (simp_all add: isReady_Delete coll_Delete f)
next
  show "fst (perform JSON_stringify a s d) = Inr (dispatch a s)"
    by (simp add: perform_unfold)
next
  show "fst (persistCollection JSON_stringify key xs d) = Inr ()"
    by (rule persist_fst)
qed

theorem not_found_is_noop_witness:
  "dispatch (Update Team ''m9'' [] rev_input) dup_store = dup_store
   \<and> dispatch (Delete Team ''m9'') dup_store = dup_store
   \<and> fst (perform demo_stringify (Delete Team ''m9'') (dup_store\<lparr>isReady := True\<rparr>) full_disk)
       = Inr (dup_store\<lparr>isReady := True\<rparr>)"
proof -
  have none: "\<forall>item \<in> set (coll Team dup_store). field item ''id'' \<noteq> JStr ''m9''"
    by (simp add: dup_store_def field_def)
  note t = not_found_is_noop [where k = Team and s = dup_store and ident = "''m9''" and now = "[]"
      and input = rev_input]
  note ab = t [THEN conjunct1, THEN mp, OF none]
  note a = ab [THEN conjunct1] and b = ab [THEN conjunct2]
  have none': "\<forall>item \<in> set (coll Team (dup_store\<lparr>isReady := True\<rparr>)). field item ''id'' \<noteq> JStr ''m9''"
    by (simp add: dup_store_def field_def)
  note t' = not_found_is_noop [where k = Team and s = "dup_store\<lparr>isReady := True\<rparr>"
      and ident = "''m9''" and a = "Delete Team ''m9''" and JSON_stringify = demo_stringify
      and d = full_disk and now = "[]" and input = rev_input and key = "[]" and xs = "[]"]
  note del = t' [THEN conjunct1, THEN mp, OF none', THEN conjunct2]
  have c: "fst (perform demo_stringify (Delete Team ''m9'') (dup_store\<lparr>isReady := True\<rparr>) full_disk)
       = Inr (dup_store\<lparr>isReady := True\<rparr>)"
    using t' [THEN conjunct2, THEN conjunct1] by (simp only: del)
  from a b c show ?thesis by (intro conjI)
qed

text \<open>
  Claim C6, amended. When the read of a collection key is rejected, or the key holds a
  non-empty string that does not parse, the load fulfils with the seed records and leaves
  the storage as it was; the startup fulfils with a ready store whose collection is the
  seed list. Once the store is ready the persistence effect writes the collection: after
  the startup the key holds the serialised seed list when the storage accepts the write,
  and its old value when it rejects the write.
\<close>

theorem unreadable_falls_back:
  assumes "rejectsRead d (STORAGE_KEYS k)
     \<or> (\<exists>raw e. items d (STORAGE_KEYS k) = Some raw \<and> raw \<noteq> [] \<and> JSON_parse raw = Inl e)"
  shows "loadCollection JSON_stringify JSON_parse (STORAGE_KEYS k) (defaults gen isoAt k) d =
           (Inr (defaults gen isoAt k), d)
     \<and> (\<exists>s. fst (startup JSON_stringify JSON_parse gen isoAt d) = Inr s \<and> isReady s
            \<and> coll k s = defaults gen isoAt k)
     \<and> items (snd (startup JSON_stringify JSON_parse gen isoAt d)) (STORAGE_KEYS k) =
         (if rejectsWrite d (STORAGE_KEYS k) then items d (STORAGE_KEYS k)
          else Some (JSON_stringify (defaults gen isoAt k)))"
proof -
  have lv: "loadValue JSON_parse (STORAGE_KEYS k) (defaults gen isoAt k) d = defaults gen isoAt k"
    using assms by (auto simp: loadValue_def falsy_def)
  have a: "loadCollection JSON_stringify JSON_parse (STORAGE_KEYS k) (defaults gen isoAt k) d =
           (Inr (defaults gen isoAt k), d)"
    using assms by (auto simp: loadCollection_unfold falsy_def)
  obtain s where s: "fst (startup JSON_stringify JSON_parse gen isoAt d) = Inr s" "isReady s"
      "coll k s = defaults gen isoAt k"
    using startup_coll [of JSON_stringify JSON_parse gen isoAt d] lv by auto
  have b: "\<exists>s. fst (startup JSON_stringify JSON_parse gen isoAt d) = Inr s \<and> isReady s
            \<and> coll k s = defaults gen isoAt k"
    using s by (intro exI [of _ s] conjI)
  have c: "items (snd (startup JSON_stringify JSON_parse gen isoAt d)) (STORAGE_KEYS k) =
         (if rejectsWrite d (STORAGE_KEYS k) then items d (STORAGE_KEYS k)
          else Some (JSON_stringify (defaults gen isoAt k)))"
    by (simp add: startup_items lv)
  from a b c show ?thesis by (intro conjI)
qed

lemma corrupt_disk_unparsable:
  "rejectsRead corrupt_disk (STORAGE_KEYS Team)
     \<or> (\<exists>raw e. items corrupt_disk (STORAGE_KEYS Team) = Some raw \<and> raw \<noteq> []
           \<and> demo_parse raw = Inl e)"
  by (simp add: corrupt_disk_def empty_disk_def demo_parse_def)

theorem unreadable_falls_back_witness:
  "items corrupt_disk (STORAGE_KEYS Team) = Some ''[{broken''
   \<and> demo_parse ''[{broken'' = Inl SyntaxError
   \<and> loadCollection demo_stringify demo_parse (STORAGE_KEYS Team) (defaultTeam demo_gen demo_iso)
        corrupt_disk = (Inr (defaultTeam demo_gen demo_iso), corrupt_disk)
   \<and> items (snd (startup demo_stringify demo_parse demo_gen demo_iso corrupt_disk))
        (STORAGE_KEYS Team) = Some ''[{team}]''"
proof -
  note t = unreadable_falls_back [where d = corrupt_disk and k = Team and JSON_parse = demo_parse
      and JSON_stringify = demo_stringify and gen = demo_gen and isoAt = demo_iso,
      OF corrupt_disk_unparsable]
  have a: "loadCollection demo_stringify demo_parse (STORAGE_KEYS Team) (defaultTeam demo_gen demo_iso)
        corrupt_disk = (Inr (defaultTeam demo_gen demo_iso), corrupt_disk)"
    using t [THEN conjunct1] by simp
  have ne: "defaults demo_gen demo_iso Team \<noteq> []"
    by (simp add: defaultTeam_def)
  have b: "items (snd (startup demo_stringify demo_parse demo_gen demo_iso corrupt_disk))
        (STORAGE_KEYS Team) = Some ''[{team}]''"
    using t [THEN conjunct2, THEN conjunct2] ne
    by (simp add: corrupt_disk_def empty_disk_def demo_stringify_def)
  have c: "items corrupt_disk (STORAGE_KEYS Team) = Some ''[{broken''"
    by (simp add: corrupt_disk_def)
  have e: "demo_parse ''[{broken'' = Inl SyntaxError"
    by (simp add: demo_parse_def)
  from c e a b show ?thesis by (intro conjI)
qed

text \<open>
  Claim C6 as stated fails twice. A key that holds the empty string, which does not parse,
  is taken for absent: the load itself overwrites it with the seed list. And a key that
  holds a corrupt non-empty string is left alone by the load but overwritten by the
  persistence effect as soon as the store is ready.
\<close>

theorem unreadable_left_in_place_counterexample:
  "items blank_disk (STORAGE_KEYS Team) = Some ''''
   \<and> demo_parse '''' = Inl SyntaxError
   \<and> items (snd (loadCollection demo_stringify demo_parse (STORAGE_KEYS Team)
        (defaultTeam demo_gen demo_iso) blank_disk)) (STORAGE_KEYS Team) = Some ''[{team}]''
   \<and> items corrupt_disk (STORAGE_KEYS Team) = Some ''[{broken''
   \<and> demo_parse ''[{broken'' = Inl SyntaxError
   \<and> items (snd (startup demo_stringify demo_parse demo_gen demo_iso corrupt_disk))
        (STORAGE_KEYS Team) = Some ''[{team}]''"
proof -
  have ne: "defaultTeam demo_gen demo_iso \<noteq> []"
    by (simp add: defaultTeam_def)
  have a: "items blank_disk (STORAGE_KEYS Team) = Some ''''"
    by (simp add: blank_disk_def)
  have b: "demo_parse '''' = Inl SyntaxError"
    by (simp add: demo_parse_def)
  have c: "items (snd (loadCollection demo_stringify demo_parse (STORAGE_KEYS Team)
        (defaultTeam demo_gen demo_iso) blank_disk)) (STORAGE_KEYS Team) = Some ''[{team}]''"
    using ne by (simp add: load_items blank_disk_def empty_disk_def falsy_def demo_stringify_def)
  have e: "items corrupt_disk (STORAGE_KEYS Team) = Some ''[{broken''"
    by (simp add: corrupt_disk_def)
  have f: "demo_parse ''[{broken'' = Inl SyntaxError"
    by (simp add: demo_parse_def)
  have lv: "loadValue demo_parse (STORAGE_KEYS Team) (defaults demo_gen demo_iso Team) corrupt_disk
      = defaultTeam demo_gen demo_iso"
    by (simp add: loadValue_def corrupt_disk_def empty_disk_def falsy_def demo_parse_def)
  have g: "items (snd (startup demo_stringify demo_parse demo_gen demo_iso corrupt_disk))
        (STORAGE_KEYS Team) = Some ''[{team}]''"
    using ne by (simp only: startup_items lv) (simp add: corrupt_disk_def empty_disk_def demo_stringify_def)
  from a b c e f g show ?thesis by (intro conjI)
qed

subsection \<open>The startup transition system\<close>

lemma startup_inv_initial: "startup_inv JSON_stringify JSON_parse gen isoAt d (initialSys d)"
  by (simp add: startup_inv_def initialSys_def initialStore_def)

lemma load_depends_on_key:
  assumes "rejectsRead d1 = rejectsRead d2" and "items d1 key = items d2 key"
  shows "fst (loadCollection JSON_stringify JSON_parse key fallback d1) =
         fst (loadCollection JSON_stringify JSON_parse key fallback d2)"
  using assms by (simp add: load_fst loadValue_def)

lemma startup_inv_Settle:
  assumes inv: "startup_inv JSON_stringify JSON_parse gen isoAt d c"
    and step: "startup_step JSON_stringify JSON_parse gen isoAt (Settle k) c = Some c'"
  shows "startup_inv JSON_stringify JSON_parse gen isoAt d c'"
proof -
  let ?load = "loadCollection JSON_stringify JSON_parse (STORAGE_KEYS k) (defaults gen isoAt k) (disk c)"
  from step have pending: "settled c k = None"
    by (simp split: if_splits)
  with step have c': "c' = c\<lparr>disk := snd ?load, settled := (settled c)(k := Some (fst ?load))\<rparr>"
    by (simp split: prod.splits)
  from inv have fr: "rejectsRead (disk c) = rejectsRead d"
    and fw: "rejectsWrite (disk c) = rejectsWrite d"
    and st: "\<And>j. case settled c j of
               None \<Rightarrow> items (disk c) (STORAGE_KEYS j) = items d (STORAGE_KEYS j)
             | Some r \<Rightarrow> r = fst (loadCollection JSON_stringify JSON_parse (STORAGE_KEYS j)
                                  (defaults gen isoAt j) d)"
    and vw: "if isReady (view c) then \<forall>j. fulfilled c j \<and> coll j (view c) = loaded c j
         else view c = initialStore"
    unfolding startup_inv_def by blast+
  from st [of k] pending have same: "items (disk c) (STORAGE_KEYS k) = items d (STORAGE_KEYS k)"
    by simp
  have notready: "\<not> isReady (view c)"
  proof
    assume "isReady (view c)"
    with vw have "fulfilled c k" by simp
    with pending show False by (simp add: fulfilled_def)
  qed
  with vw have init: "view c = initialStore" by simp
  have res: "fst ?load = fst (loadCollection JSON_stringify JSON_parse (STORAGE_KEYS k)
      (defaults gen isoAt k) d)"
    by (rule load_depends_on_key [OF fr same])
  have st': "case settled c' j of
               None \<Rightarrow> items (disk c') (STORAGE_KEYS j) = items d (STORAGE_KEYS j)
             | Some r \<Rightarrow> r = fst (loadCollection JSON_stringify JSON_parse (STORAGE_KEYS j)
                                  (defaults gen isoAt j) d)" for j
  proof (cases "j = k")
    case True
    then show ?thesis by (simp add: c' res)
  next
    case False
    with st [of j] show ?thesis
      by (cases "settled c j") (simp_all add: c' load_items STORAGE_KEYS_inj)
  qed
  have "view c' = initialStore"
    by (simp add: c' init)
  then have vw': "if isReady (view c') then \<forall>j. fulfilled c' j \<and> coll j (view c') = loaded c' j
         else view c' = initialStore"
    by (simp add: initialStore_def)
  have fr': "rejectsRead (disk c') = rejectsRead d"
    by (simp add: c' load_rejectsRead fr)
  have fw': "rejectsWrite (disk c') = rejectsWrite d"
    by (simp add: c' load_rejectsWrite fw)
  from fr' fw' st' vw' show ?thesis
    unfolding startup_inv_def by blast
qed

lemma startup_inv_Commit:
  assumes inv: "startup_inv JSON_stringify JSON_parse gen isoAt d c"
    and step: "startup_step JSON_stringify JSON_parse gen isoAt Commit c = Some c'"
  shows "startup_inv JSON_stringify JSON_parse gen isoAt d c'"
proof -
  from step have en: "\<not> isReady (view c)" "fulfilled c Parts" "fulfilled c Revisions"
      "fulfilled c Team" "fulfilled c Clients" "fulfilled c Suppliers"
    by (simp_all split: if_splits)
  with step have c': "c' = c\<lparr>view := (view c)\<lparr>parts := loaded c Parts, revisions := loaded c Revisions,
                    team := loaded c Team, clients := loaded c Clients,
                    suppliers := loaded c Suppliers, isReady := True\<rparr>\<rparr>"
    by simp
  have all: "fulfilled c j" for j
    using en by (cases j) simp_all
  have vw': "\<forall>j. fulfilled c' j \<and> coll j (view c') = loaded c' j"
  proof
    fix j show "fulfilled c' j \<and> coll j (view c') = loaded c' j"
      using all [of j] by (cases j) (simp_all add: c' fulfilled_def loaded_def)
  qed
  have r: "isReady (view c')" by (simp add: c')
  from inv have fr: "rejectsRead (disk c) = rejectsRead d"
    and fw: "rejectsWrite (disk c) = rejectsWrite d"
    and st: "\<And>j. case settled c j of
               None \<Rightarrow> items (disk c) (STORAGE_KEYS j) = items d (STORAGE_KEYS j)
             | Some r \<Rightarrow> r = fst (loadCollection JSON_stringify JSON_parse (STORAGE_KEYS j)
                                  (defaults gen isoAt j) d)"
    unfolding startup_inv_def by blast+
  have fr': "rejectsRead (disk c') = rejectsRead d"
    and fw': "rejectsWrite (disk c') = rejectsWrite d"
    using fr fw by (simp_all add: c')
  have st': "case settled c' j of
               None \<Rightarrow> items (disk c') (STORAGE_KEYS j) = items d (STORAGE_KEYS j)
             | Some r \<Rightarrow> r = fst (loadCollection JSON_stringify JSON_parse (STORAGE_KEYS j)
                                  (defaults gen isoAt j) d)" for j
    using st [of j] by (cases "settled c j") (simp_all add: c')
  from fr' fw' st' vw' r show ?thesis
    unfolding startup_inv_def by simp
qed

lemma startup_inv_step:
  "startup_inv JSON_stringify JSON_parse gen isoAt d c \<Longrightarrow>
   startup_step JSON_stringify JSON_parse gen isoAt e c = Some c' \<Longrightarrow>
   startup_inv JSON_stringify JSON_parse gen isoAt d c'"
  by (cases e) (auto intro: startup_inv_Settle startup_inv_Commit)

lemma startup_inv_run:
  "startup_inv JSON_stringify JSON_parse gen isoAt d c \<Longrightarrow>
   startup_run JSON_stringify JSON_parse gen isoAt es c = Some c' \<Longrightarrow>
   startup_inv JSON_stringify JSON_parse gen isoAt d c'"
proof (induction es arbitrary: c)
  case Nil
  then show ?case by simp
next
  case (Cons e es)
  from Cons.prems(2) obtain c1 where
    s1: "startup_step JSON_stringify JSON_parse gen isoAt e c = Some c1" and
    r1: "startup_run JSON_stringify JSON_parse gen isoAt es c1 = Some c'"
    by (auto split: option.splits)
  from Cons.IH [OF startup_inv_step [OF Cons.prems(1) s1] r1] show ?case .
qed

lemma startup_step_Settle:
  "settled c k = None \<Longrightarrow>
   startup_step JSON_stringify JSON_parse gen isoAt (Settle k) c =
     Some (c\<lparr>disk := snd (loadCollection JSON_stringify JSON_parse (STORAGE_KEYS k)
                          (defaults gen isoAt k) (disk c)),
             settled := (settled c)(k := Some (Inr (loadValue JSON_parse (STORAGE_KEYS k)
                          (defaults gen isoAt k) (disk c))))\<rparr>)"
  using load_fst [of JSON_stringify JSON_parse "STORAGE_KEYS k" "defaults gen isoAt k" "disk c"]
  by (cases "loadCollection JSON_stringify JSON_parse (STORAGE_KEYS k) (defaults gen isoAt k) (disk c)")
    simp

lemma loadValue_after_other_load:
  "key \<noteq> key' \<Longrightarrow>
   loadValue JSON_parse key fb (snd (loadCollection JSON_stringify JSON_parse key' fb' d0))
     = loadValue JSON_parse key fb d0"
  by (simp add: loadValue_def load_items load_rejectsRead)

lemma startup_run_in_order:
  "\<exists>c. startup_run JSON_stringify JSON_parse gen isoAt
          [Settle Parts, Settle Revisions, Settle Team, Settle Clients, Settle Suppliers, Commit]
          (initialSys d) = Some c
       \<and> Inr (view c) = fst (bootstrap JSON_stringify JSON_parse gen isoAt initialStore d)
       \<and> disk c = snd (bootstrap JSON_stringify JSON_parse gen isoAt initialStore d)"
  by (simp add: startup_step_Settle initialSys_def fulfilled_def loaded_def bootstrap_fst
      bootstrap_snd_unfold loadValue_after_other_load initialStore_def
      del: startup_step.simps(1))

text \<open>
  Claim C9. In every state of a startup run: while the store is not ready every collection
  is empty; once it is ready every collection is the result of loading its key from the
  storage the startup began on; and a transition that makes the store ready is the commit,
  taken when all five loads have settled with a result, from a state in which every
  collection is still empty, to a state in which every collection is the result of its
  load.
\<close>

theorem ready_only_after_all_loaded:
  assumes "startup_run JSON_stringify JSON_parse gen isoAt es (initialSys d) = Some c"
  shows "(\<not> isReady (view c) \<longrightarrow> (\<forall>k. coll k (view c) = []))
     \<and> (isReady (view c) \<longrightarrow>
          (\<forall>k. settled c k = Some (Inr (coll k (view c)))
              \<and> Inr (coll k (view c)) =
                  fst (loadCollection JSON_stringify JSON_parse (STORAGE_KEYS k)
                         (defaults gen isoAt k) d)))
     \<and> (\<forall>e c'. startup_step JSON_stringify JSON_parse gen isoAt e c = Some c'
            \<and> \<not> isReady (view c) \<and> isReady (view c') \<longrightarrow>
          e = Commit
          \<and> (\<forall>k. coll k (view c) = [] \<and> settled c k = Some (Inr (coll k (view c')))))"
proof -
  have inv: "startup_inv JSON_stringify JSON_parse gen isoAt d c"
    by (rule startup_inv_run [OF startup_inv_initial assms])
  then have st: "\<And>j. case settled c j of
               None \<Rightarrow> items (disk c) (STORAGE_KEYS j) = items d (STORAGE_KEYS j)
             | Some r \<Rightarrow> r = fst (loadCollection JSON_stringify JSON_parse (STORAGE_KEYS j)
                                  (defaults gen isoAt j) d)"
    and vw: "if isReady (view c) then \<forall>j. fulfilled c j \<and> coll j (view c) = loaded c j
         else view c = initialStore"
    unfolding startup_inv_def by blast+
  have empty: "coll k (view c) = []" if "\<not> isReady (view c)" for k
    using that vw by (cases k) (simp_all add: initialStore_def)
  have a: "\<not> isReady (view c) \<longrightarrow> (\<forall>k. coll k (view c) = [])"
    using empty by blast
  have ful: "settled c k = Some (Inr (loaded c k))" if "fulfilled c k" for k
    using that by (auto simp: fulfilled_def loaded_def split: option.splits sum.splits)
  have rdy: "settled c k = Some (Inr (coll k (view c)))
      \<and> Inr (coll k (view c)) = fst (loadCollection JSON_stringify JSON_parse (STORAGE_KEYS k)
           (defaults gen isoAt k) d)" if r: "isReady (view c)" for k
  proof -
    from r vw have f: "fulfilled c k" and cl: "coll k (view c) = loaded c k" by simp_all
    from ful [OF f] cl have s: "settled c k = Some (Inr (coll k (view c)))" by simp
    with st [of k] show ?thesis by simp
  qed
  have b: "isReady (view c) \<longrightarrow>
          (\<forall>k. settled c k = Some (Inr (coll k (view c)))
              \<and> Inr (coll k (view c)) =
                  fst (loadCollection JSON_stringify JSON_parse (STORAGE_KEYS k)
                         (defaults gen isoAt k) d))"
    using rdy by blast
  have stepc: "e = Commit
      \<and> (\<forall>k. coll k (view c) = [] \<and> settled c k = Some (Inr (coll k (view c'))))"
    if s: "startup_step JSON_stringify JSON_parse gen isoAt e c = Some c'"
      and n: "\<not> isReady (view c)" and r: "isReady (view c')" for e c'
  proof (cases e)
    case (Settle k)
    with s have "view c' = view c"
      by (auto split: if_splits prod.splits)
    with n r show ?thesis by simp
  next
    case Commit
    with s have en: "fulfilled c Parts" "fulfilled c Revisions"
        "fulfilled c Team" "fulfilled c Clients" "fulfilled c Suppliers"
      by (simp_all split: if_splits)
    with s Commit n have c': "c' = c\<lparr>view := (view c)\<lparr>parts := loaded c Parts,
        revisions := loaded c Revisions, team := loaded c Team, clients := loaded c Clients,
        suppliers := loaded c Suppliers, isReady := True\<rparr>\<rparr>"
      by simp
    have "coll k (view c) = [] \<and> settled c k = Some (Inr (coll k (view c')))" for k
      using empty [OF n, of k] en ful [of k] by (cases k) (simp_all add: c')
    with Commit show ?thesis by blast
  qed
  have cc: "\<forall>e c'. startup_step JSON_stringify JSON_parse gen isoAt e c = Some c'
            \<and> \<not> isReady (view c) \<and> isReady (view c') \<longrightarrow>
          e = Commit
          \<and> (\<forall>k. coll k (view c) = [] \<and> settled c k = Some (Inr (coll k (view c'))))"
    using stepc by blast
  from a b cc show ?thesis by (intro conjI)
qed

theorem ready_only_after_all_loaded_witness:
  "(\<exists>c. startup_run demo_stringify demo_parse demo_gen demo_iso
          [Settle Team, Settle Parts] (initialSys empty_disk) = Some c
        \<and> \<not> isReady (view c) \<and> coll Team (view c) = [])
   \<and> (\<exists>c. startup_run demo_stringify demo_parse demo_gen demo_iso
          [Settle Team, Settle Parts, Settle Suppliers, Settle Revisions, Settle Clients, Commit]
          (initialSys empty_disk) = Some c
        \<and> isReady (view c) \<and> coll Team (view c) = defaultTeam demo_gen demo_iso)"
proof -
  have "\<exists>c. startup_run demo_stringify demo_parse demo_gen demo_iso
          [Settle Team, Settle Parts] (initialSys empty_disk) = Some c \<and> \<not> isReady (view c)"
    by (simp add: startup_step_Settle initialSys_def initialStore_def del: startup_step.simps(1))
  then obtain c1 where c1: "startup_run demo_stringify demo_parse demo_gen demo_iso
          [Settle Team, Settle Parts] (initialSys empty_disk) = Some c1" "\<not> isReady (view c1)"
    by (elim exE conjE)
  have e1: "coll Team (view c1) = []"
    using ready_only_after_all_loaded [OF c1(1), THEN conjunct1, THEN mp, OF c1(2)] by simp
  have "\<exists>c. startup_run demo_stringify demo_parse demo_gen demo_iso
          [Settle Team, Settle Parts, Settle Suppliers, Settle Revisions, Settle Clients, Commit]
          (initialSys empty_disk) = Some c \<and> isReady (view c)"
    by (simp add: startup_step_Settle initialSys_def initialStore_def fulfilled_def
        del: startup_step.simps(1))
  then obtain c2 where c2: "startup_run demo_stringify demo_parse demo_gen demo_iso
          [Settle Team, Settle Parts, Settle Suppliers, Settle Revisions, Settle Clients, Commit]
          (initialSys empty_disk) = Some c2" "isReady (view c2)"
    by (elim exE conjE)
  have "Inr (coll Team (view c2)) =
      fst (loadCollection demo_stringify demo_parse (STORAGE_KEYS Team)
             (defaults demo_gen demo_iso Team) empty_disk)"
    using ready_only_after_all_loaded [OF c2(1), THEN conjunct2, THEN conjunct1, THEN mp, OF c2(2),
        THEN spec, of Team]
    by (elim conjE)
  then have e2: "coll Team (view c2) = defaultTeam demo_gen demo_iso"
    by (simp add: load_fst loadValue_def empty_disk_def falsy_def)
  have a: "\<exists>c. startup_run demo_stringify demo_parse demo_gen demo_iso
          [Settle Team, Settle Parts] (initialSys empty_disk) = Some c
        \<and> \<not> isReady (view c) \<and> coll Team (view c) = []"
    using c1 e1 by (intro exI [of _ c1] conjI)
  have b: "\<exists>c. startup_run demo_stringify demo_parse demo_gen demo_iso
          [Settle Team, Settle Parts, Settle Suppliers, Settle Revisions, Settle Clients, Commit]
          (initialSys empty_disk) = Some c
        \<and> isReady (view c) \<and> coll Team (view c) = defaultTeam demo_gen demo_iso"
    using c2 e2 by (intro exI [of _ c2] conjI)
  from a b show ?thesis by (intro conjI)
qed

subsection \<open>Identities\<close>

lemma ids_Update:
  "ids (coll k' (dispatch (Update k ident now input) s)) = ids (coll k' s)"
  by (simp add: ids_def coll_Update field_def)

lemma ids_Delete:
  "ids (coll k' (dispatch (Delete k ident) s)) =
     (if k' = k then filter (\<lambda>i. i \<noteq> JStr ident) (ids (coll k s)) else ids (coll k' s))"
  by (simp add: ids_def coll_Delete filter_map comp_def)

lemma ids_Create:
  assumes "conforms (createInput k) input"
  shows "ids (coll k' (dispatch (Create k newId now input) s)) =
     (if k' = k then JStr newId # ids (coll k s) else ids (coll k' s))"
proof -
  have "input ''id'' = None"
    using assms by (rule createInput_no_id)
  then show ?thesis
    by (simp add: ids_def coll_Create field_def map_add_def)
qed

lemma ids_seeded:
  "ids (parts (seededStore gen isoAt)) = [JStr (gen 2), JStr (gen 3)]"
  "ids (revisions (seededStore gen isoAt)) = [JStr (gen 4), JStr (gen 5), JStr (gen 6)]"
  "ids (team (seededStore gen isoAt)) = [JStr (gen 0), JStr (gen 1)]"
  "ids (clients (seededStore gen isoAt)) = [JStr (gen 7), JStr (gen 8)]"
  "ids (suppliers (seededStore gen isoAt)) = [JStr (gen 9), JStr (gen 10)]"
  by (simp_all add: ids_def seededStore_def field_def defaultParts_def defaultRevisions_def
      defaultTeam_def defaultClients_def defaultSuppliers_def)

lemma seeded_distinct:
  assumes "inj_on gen {..<11}"
  shows "distinct (ids (coll k (seededStore gen isoAt)))"
proof -
  have ne: "gen a \<noteq> gen b" if "a < 11" "b < 11" "a \<noteq> b" for a b
    using assms that by (auto simp: inj_on_def)
  show ?thesis
    by (cases k) (simp_all add: ids_seeded ne)
qed

lemma reachable_ids:
  assumes "inj_on gen {..<11}" and "reachable gen isoAt s"
  shows "distinct (ids (coll k s)) \<and> (\<forall>i \<in> set (ids (coll k s)). \<exists>str. i = JStr str)"
  using assms(2)
proof (induction arbitrary: k rule: reachable.induct)
  case seeded
  show ?case
    using seeded_distinct [OF assms(1), of k isoAt] by (cases k) (simp_all add: ids_seeded)
next
  case (created s kc input newId now)
  show ?case
    using created.IH [of k] created.hyps(2,3)
    by (auto simp: ids_Create)
next
  case (updated s ku ident now input)
  show ?case
    using updated.IH [of k] by (simp add: ids_Update)
next
  case (deleted s kd ident)
  show ?case
    using deleted.IH [of k] by (auto simp: ids_Delete)
qed

text \<open>
  Claim C8. In every state reached from the seeded store by creates with a fresh identity
  and a well-typed input, updates and deletes, where the eleven seed identities are
  pairwise different: in each collection every record has a string identity and no two
  records share one. Identities enter a collection only by a create, which puts the
  generated one in front; an update leaves the identities of every collection as they
  were, in order; a delete only removes the deleted identity.
\<close>

theorem identities_unique_and_stable:
  assumes "inj_on gen {..<11}" and "reachable gen isoAt s"
  shows "(\<forall>k. distinct (ids (coll k s)) \<and> (\<forall>i \<in> set (ids (coll k s)). \<exists>str. i = JStr str))
     \<and> (\<forall>k' k ident now input.
           ids (coll k' (dispatch (Update k ident now input) s)) = ids (coll k' s))
     \<and> (\<forall>k' k ident.
           ids (coll k' (dispatch (Delete k ident) s)) =
             (if k' = k then filter (\<lambda>i. i \<noteq> JStr ident) (ids (coll k s)) else ids (coll k' s)))
     \<and> (\<forall>k' k newId now input. conforms (createInput k) input \<longrightarrow>
           ids (coll k' (dispatch (Create k newId now input) s)) =
             (if k' = k then JStr newId # ids (coll k s) else ids (coll k' s)))"
proof (intro conjI allI impI)
  fix k show "distinct (ids (coll k s))"
    using reachable_ids [OF assms, of k] by simp
next
  fix k show "\<forall>i \<in> set (ids (coll k s)). \<exists>str. i = JStr str"
    using reachable_ids [OF assms, of k] by simp
next
  fix k' k ident now input
  show "ids (coll k' (dispatch (Update k ident now input) s)) = ids (coll k' s)"
    by (rule ids_Update)
next
  fix k' k ident
  show "ids (coll k' (dispatch (Delete k ident) s)) =
      (if k' = k then filter (\<lambda>i. i \<noteq> JStr ident) (ids (coll k s)) else ids (coll k' s))"
    by (rule ids_Delete)
next
  fix k' k newId now input
  assume "conforms (createInput k) input"
  then show "ids (coll k' (dispatch (Create k newId now input) s)) =
      (if k' = k then JStr newId # ids (coll k s) else ids (coll k' s))"
    by (rule ids_Create)
qed

lemma demo_gen_inj: "inj_on demo_gen {..<11}"
  by (simp add: inj_on_def demo_gen_def)

theorem identities_unique_and_stable_witness:
  "inj_on demo_gen {..<11}
   \<and> reachable demo_gen demo_iso
       (dispatch (Create Parts ''p7'' ''2025-11-02T10:00:00.000Z'' pad_input)
          (seededStore demo_gen demo_iso))
   \<and> distinct (ids (coll Parts
       (dispatch (Create Parts ''p7'' ''2025-11-02T10:00:00.000Z'' pad_input)
          (seededStore demo_gen demo_iso))))
   \<and> ids (coll Parts
       (dispatch (Create Parts ''p7'' ''2025-11-02T10:00:00.000Z'' pad_input)
          (seededStore demo_gen demo_iso))) = [JStr ''p7'', JStr ''ggg'', JStr ''gggg'']"
proof -
  let ?s = "dispatch (Create Parts ''p7'' ''2025-11-02T10:00:00.000Z'' pad_input)
          (seededStore demo_gen demo_iso)"
  have fresh: "JStr ''p7'' \<notin> set (ids (coll Parts (seededStore demo_gen demo_iso)))"
    by (simp add: ids_seeded demo_gen_def eval_nat_numeral)
  have r: "reachable demo_gen demo_iso ?s"
    by (rule reachable.created [OF reachable.seeded pad_input_conforms fresh])
  note t = identities_unique_and_stable [OF demo_gen_inj r]
  have d: "distinct (ids (coll Parts ?s))"
    using t [THEN conjunct1, THEN spec, of Parts] by (elim conjE)
  have "ids (coll Parts ?s) = JStr ''p7'' # ids (coll Parts (seededStore demo_gen demo_iso))"
    by (simp only: ids_Create [OF pad_input_conforms] if_True simp_thms)
  then have i: "ids (coll Parts ?s) = [JStr ''p7'', JStr ''ggg'', JStr ''gggg'']"
    by (simp only: coll.simps ids_seeded) (simp add: demo_gen_def eval_nat_numeral)
  from demo_gen_inj r d i show ?thesis by (intro conjI)
qed

subsection \<open>The JSON text read back\<close>
















lemma below_sixteen:
  "(n::nat) < 16 \<Longrightarrow> n \<in> {0, 1, 2, 3, 4, 5, 6, 7, 8, 9, 10, 11, 12, 13, 14, 15}"
  by simp arith

lemma hex_val_hex_of: "n < 16 \<Longrightarrow> hex_val (hex_of n) = Some n"
  by (drule below_sixteen) (auto simp: hex_val_def hex_of_def)

lemma string_body_control:
  assumes "of_char c < (32::nat)" and "string_body cs = Some (str, rest)"
  shows "string_body (CHR 0x5C # CHR ''u'' # CHR ''0'' # CHR ''0'' #
           hex_of (of_char c div 16) # hex_of (of_char c mod 16) # cs) = Some (c # str, rest)"
proof -
  have a: "hex_val (hex_of (of_char c div 16)) = Some (of_char c div 16)"
    using assms(1) by (intro hex_val_hex_of) simp
  have b: "hex_val (hex_of (of_char c mod 16)) = Some (of_char c mod 16)"
    by (intro hex_val_hex_of) simp
  have "char_of (16 * (of_char c div 16) + of_char c mod (16::nat)) = c"
    by simp
  with a b assms(2) show ?thesis
    by simp
qed

lemma string_body_escape:
  "string_body (concat (map escape_char str) @ CHR 0x22 # rest) = Some (str, rest)"
proof (induction str)
  case Nil
  show ?case by simp
next
  case (Cons c str)
  consider "c = CHR 0x22 \<or> c = CHR 0x5C"
    | "c \<noteq> CHR 0x22" "c \<noteq> CHR 0x5C" "of_char c < (32::nat)"
    | "c \<noteq> CHR 0x22" "c \<noteq> CHR 0x5C" "\<not> of_char c < (32::nat)"
    by blast
  then show ?case
  proof cases
    case 1
    with Cons.IH show ?thesis
      by (auto simp: escape_char_def)
  next
    case 2
    from string_body_control [OF 2(3) Cons.IH] 2 show ?thesis
      by (simp add: escape_char_def)
  next
    case 3
    with Cons.IH show ?thesis
      by (simp add: escape_char_def)
  qed
qed

lemma parse_quote:
  "string_body (tl (quote str) @ rest) = Some (str, rest) \<and> hd (quote str) = CHR 0x22
   \<and> quote str \<noteq> []"
  by (simp add: quote_def string_body_escape)















lemma json_parse_empty: "json_parse [] = Inl SyntaxError"
  by (simp add: json_parse_def parse_array_def)










end
